theory Spec2Isabelle
  imports Complex_Main "HOL-Library.Word" "HOL-Library.Log_Nat" "HOL-Library.Sublist"
begin

unbundle bit_operations_syntax

section \<open>The platform: strings and numbers of the language\<close>

text \<open>
  A string of the source language is a sequence of 16-bit code units. Literals of the
  source are ASCII and are written \<open>js ''...''\<close>.
\<close>

type_synonym jsstring = "16 word list"

definition js :: "string \<Rightarrow> jsstring" where
  "js s = map of_char s"

subsection \<open>Numbers\<close>

text \<open>
  A value of type \<open>number\<close> is a binary64 float: not-a-number, an infinity, or a finite
  value, kept as the rational it denotes (the two zeros are not told apart; nothing below
  observes the sign of zero).
\<close>

datatype number = NaN | Infinity | NegInfinity | Num rat

definition isNaN :: "number \<Rightarrow> bool" where
  "isNaN x = (x = NaN)"

text \<open>
  Rounding of a rational to binary64, to nearest with ties to even: 53 significant bits,
  least exponent \<open>-1074\<close>, overflow to an infinity. \<open>floor_log2 a\<close> is the \<open>e\<close> with
  \<open>2^e \<le> a < 2^(e+1)\<close>, for positive \<open>a\<close>.
\<close>

definition floor_log2 :: "rat \<Rightarrow> int" where
  "floor_log2 a = (let (n, d) = quotient_of a; k = bitlen n - bitlen d
                   in if power_int 2 k \<le> a then k else k - 1)"

definition round_half_even :: "rat \<Rightarrow> int" where
  "round_half_even x = (let f = \<lfloor>x\<rfloor>; r = x - of_int f
     in if r < 1 / 2 then f else if 1 / 2 < r then f + 1 else if even f then f else f + 1)"

definition to_double :: "rat \<Rightarrow> number" where
  "to_double q = (if q = 0 then Num 0 else
     let a = \<bar>q\<bar>; p = max (floor_log2 a - 52) (- 1074);
         v = of_int (round_half_even (a / power_int 2 p)) * power_int 2 p
     in if 2 ^ 1024 \<le> v then (if 0 < q then Infinity else NegInfinity)
        else Num (sgn q * v))"

definition negate :: "number \<Rightarrow> number" where
  "negate x = (case x of NaN \<Rightarrow> NaN | Infinity \<Rightarrow> NegInfinity | NegInfinity \<Rightarrow> Infinity
     | Num q \<Rightarrow> Num (- q))"

text \<open>The operator \<open>*\<close> on numbers.\<close>

fun js_mul :: "number \<Rightarrow> number \<Rightarrow> number" where
  "js_mul NaN y = NaN"
| "js_mul x NaN = NaN"
| "js_mul (Num a) (Num b) = to_double (a * b)"
| "js_mul (Num a) y = (if a = 0 then NaN else if 0 < a then y else negate y)"
| "js_mul x (Num b) = (if b = 0 then NaN else if 0 < b then x else negate x)"
| "js_mul Infinity Infinity = Infinity"
| "js_mul Infinity NegInfinity = NegInfinity"
| "js_mul NegInfinity Infinity = NegInfinity"
| "js_mul NegInfinity NegInfinity = Infinity"

text \<open>\<open>Math.round\<close>: the nearest integer, a tie going up.\<close>

fun Math_round :: "number \<Rightarrow> number" where
  "Math_round (Num q) = Num (of_int \<lfloor>q + 1 / 2\<rfloor>)"
| "Math_round x = x"

function decimal :: "nat \<Rightarrow> jsstring" where
  "decimal n = (if n < 10 then [of_nat (48 + n)]
                else decimal (n div 10) @ [of_nat (48 + n mod 10)])"
  by pat_completeness auto
termination
  by (relation "measure id") auto

declare decimal.simps [simp del]

text \<open>
  \<open>String(x)\<close> for a number \<open>x\<close>. An integer of magnitude at most \<open>2^53\<close> prints as its
  decimal digits. For every other finite value the shortest round-trip digits of the
  runtime are taken as the parameter \<open>general\<close>.
\<close>

definition number_toString :: "(rat \<Rightarrow> jsstring) \<Rightarrow> number \<Rightarrow> jsstring" where
  "number_toString general x = (case x of
       NaN \<Rightarrow> js ''NaN''
     | Infinity \<Rightarrow> js ''Infinity''
     | NegInfinity \<Rightarrow> js ''-Infinity''
     | Num q \<Rightarrow>
         if of_int \<lfloor>q\<rfloor> = q \<and> \<bar>q\<bar> \<le> 2 ^ 53
         then (if q < 0 then js ''-'' else []) @ decimal (nat \<bar>\<lfloor>q\<rfloor>\<bar>)
         else general q)"

subsection \<open>UTF-16 and UTF-8\<close>

text \<open>
  \<open>code_points\<close> reads a string as code points, as the iteration of the language does: a
  high surrogate followed by a low one is one code point, and a surrogate on its own is
  \<open>None\<close>. \<open>code_units\<close> writes a code point back.
\<close>

definition is_high_surrogate :: "16 word \<Rightarrow> bool" where
  "is_high_surrogate c = (0xD800 \<le> unat c \<and> unat c \<le> 0xDBFF)"

definition is_low_surrogate :: "16 word \<Rightarrow> bool" where
  "is_low_surrogate c = (0xDC00 \<le> unat c \<and> unat c \<le> 0xDFFF)"

definition lone :: "16 word \<Rightarrow> nat option" where
  "lone c = (if is_high_surrogate c \<or> is_low_surrogate c then None else Some (unat c))"

fun code_points :: "jsstring \<Rightarrow> nat option list" where
  "code_points [] = []"
| "code_points [c] = [lone c]"
| "code_points (c # d # cs) =
     (if is_high_surrogate c \<and> is_low_surrogate d
      then Some (0x10000 + (unat c - 0xD800) * 0x400 + (unat d - 0xDC00)) # code_points cs
      else lone c # code_points (d # cs))"

definition code_units :: "nat \<Rightarrow> jsstring" where
  "code_units n = (if n < 0x10000 then [of_nat n]
     else [of_nat (0xD800 + (n - 0x10000) div 0x400), of_nat (0xDC00 + (n - 0x10000) mod 0x400)])"

definition utf8_of_code_point :: "nat \<Rightarrow> 8 word list" where
  "utf8_of_code_point n =
     (if n < 0x80 then [of_nat n]
      else if n < 0x800 then [of_nat (0xC0 + n div 0x40), of_nat (0x80 + n mod 0x40)]
      else if n < 0x10000 then
        [of_nat (0xE0 + n div 0x1000), of_nat (0x80 + n div 0x40 mod 0x40),
         of_nat (0x80 + n mod 0x40)]
      else
        [of_nat (0xF0 + n div 0x40000), of_nat (0x80 + n div 0x1000 mod 0x40),
         of_nat (0x80 + n div 0x40 mod 0x40), of_nat (0x80 + n mod 0x40)])"

text \<open>
  \<open>Buffer.from(str, "utf-8")\<close>: the bytes of the string in UTF-8. A surrogate on its own
  has no encoding and is written as U+FFFD.
\<close>

definition utf8_write :: "jsstring \<Rightarrow> 8 word list" where
  "utf8_write s = concat (map (\<lambda>cp. utf8_of_code_point (case cp of None \<Rightarrow> 0xFFFD | Some n \<Rightarrow> n))
     (code_points s))"

text \<open>
  \<open>buf.toString("utf-8")\<close>: the decoder of the Encoding standard. A lead byte announces
  one to three continuation bytes; the first of them has a narrower range after the leads
  \<open>E0\<close>, \<open>ED\<close>, \<open>F0\<close> and \<open>F4\<close>. A byte that cannot start or continue a sequence gives
  U+FFFD, and a byte that breaks a sequence is read again as the start of the next one.
\<close>

definition needed :: "nat \<Rightarrow> nat" where
  "needed n = (if 0xC2 \<le> n \<and> n \<le> 0xDF then 1 else if 0xE0 \<le> n \<and> n \<le> 0xEF then 2
     else if 0xF0 \<le> n \<and> n \<le> 0xF4 then 3 else 0)"

definition second_ok :: "nat \<Rightarrow> 8 word \<Rightarrow> bool" where
  "second_ok n b = ((if n = 0xE0 then 0xA0 else if n = 0xF0 then 0x90 else 0x80) \<le> unat b
     \<and> unat b \<le> (if n = 0xED then 0x9F else if n = 0xF4 then 0x8F else 0xBF))"

definition continuation :: "8 word \<Rightarrow> bool" where
  "continuation b = (0x80 \<le> unat b \<and> unat b \<le> 0xBF)"

fun utf8_toString :: "8 word list \<Rightarrow> jsstring" where
  "utf8_toString [] = []"
| "utf8_toString (b # bs) = (let n = unat b in
     if n < 0x80 then of_nat n # utf8_toString bs
     else if needed n = 0 then 0xFFFD # utf8_toString bs
     else (case bs of
         [] \<Rightarrow> [0xFFFD]
       | b1 # r1 \<Rightarrow>
           if \<not> second_ok n b1 then 0xFFFD # utf8_toString bs
           else if needed n = 1
             then code_units ((n - 0xC0) * 0x40 + (unat b1 - 0x80)) @ utf8_toString r1
           else (case r1 of
               [] \<Rightarrow> [0xFFFD]
             | b2 # r2 \<Rightarrow>
                 if \<not> continuation b2 then 0xFFFD # utf8_toString r1
                 else if needed n = 2
                   then code_units ((n - 0xE0) * 0x1000 + (unat b1 - 0x80) * 0x40
                          + (unat b2 - 0x80)) @ utf8_toString r2
                 else (case r2 of
                     [] \<Rightarrow> [0xFFFD]
                   | b3 # r3 \<Rightarrow>
                       if \<not> continuation b3 then 0xFFFD # utf8_toString r2
                       else code_units ((n - 0xF0) * 0x40000 + (unat b1 - 0x80) * 0x1000
                              + (unat b2 - 0x80) * 0x40 + (unat b3 - 0x80))
                            @ utf8_toString r3))))"


subsection \<open>Base64\<close>

text \<open>
  \<open>buf.toString("base64")\<close> is standard base64 with padding. \<open>Buffer.from(str, "base64")\<close>
  is lenient: it reads the standard and the URL-safe alphabet, skips every other
  character, stops at the first \<open>=\<close>, and a final group of two or three characters
  gives one or two bytes. It looks at the low byte of each code unit only: U+0141 is read
  as \<open>A\<close> and U+013D as \<open>=\<close>.
\<close>

definition base64_char :: "nat \<Rightarrow> 16 word" where
  "base64_char i = (if i < 26 then of_nat (65 + i) else if i < 52 then of_nat (97 + (i - 26))
     else if i < 62 then of_nat (48 + (i - 52)) else if i = 62 then 0x2B else 0x2F)"

fun base64_encode :: "8 word list \<Rightarrow> jsstring" where
  "base64_encode [] = []"
| "base64_encode [a] = [base64_char (unat a div 4), base64_char (unat a mod 4 * 16), 0x3D, 0x3D]"
| "base64_encode [a, b] = [base64_char (unat a div 4),
     base64_char (unat a mod 4 * 16 + unat b div 16), base64_char (unat b mod 16 * 4), 0x3D]"
| "base64_encode (a # b # c # bs) = [base64_char (unat a div 4),
     base64_char (unat a mod 4 * 16 + unat b div 16),
     base64_char (unat b mod 16 * 4 + unat c div 64), base64_char (unat c mod 64)]
     @ base64_encode bs"

definition base64_value :: "16 word \<Rightarrow> nat option" where
  "base64_value c = (let n = unat c mod 256 in
     if 65 \<le> n \<and> n \<le> 90 then Some (n - 65)
     else if 97 \<le> n \<and> n \<le> 122 then Some (n - 97 + 26)
     else if 48 \<le> n \<and> n \<le> 57 then Some (n - 48 + 52)
     else if n = 0x2B \<or> n = 0x2D then Some 62
     else if n = 0x2F \<or> n = 0x5F then Some 63
     else None)"

fun sextets_bytes :: "nat list \<Rightarrow> 8 word list" where
  "sextets_bytes (a # b # c # d # r) =
     [of_nat (a * 4 + b div 16), of_nat (b mod 16 * 16 + c div 4), of_nat (c mod 4 * 64 + d)]
     @ sextets_bytes r"
| "sextets_bytes [a, b, c] = [of_nat (a * 4 + b div 16), of_nat (b mod 16 * 16 + c div 4)]"
| "sextets_bytes [a, b] = [of_nat (a * 4 + b div 16)]"
| "sextets_bytes _ = []"

definition base64_decode :: "jsstring \<Rightarrow> 8 word list" where
  "base64_decode s =
     sextets_bytes (List.map_filter base64_value (takeWhile (\<lambda>c. unat c mod 256 \<noteq> 0x3D) s))"

subsection \<open>Percent-coding\<close>

text \<open>
  \<open>encodeURIComponent\<close> leaves letters, digits and \<open>- _ . ! ~ * ' ( )\<close> as they are and
  writes every other code point as the \<open>%XX\<close> escapes of its UTF-8 bytes, with upper-case
  hexadecimal digits. It throws \<open>URIError\<close> on a surrogate on its own: the result is
  \<open>None\<close> then.
\<close>

definition uri_unescaped :: "nat \<Rightarrow> bool" where
  "uri_unescaped n = ((48 \<le> n \<and> n \<le> 57) \<or> (65 \<le> n \<and> n \<le> 90) \<or> (97 \<le> n \<and> n \<le> 122)
     \<or> n \<in> set [0x2D, 0x5F, 0x2E, 0x21, 0x7E, 0x2A, 0x27, 0x28, 0x29])"

definition hex_upper :: "nat \<Rightarrow> 16 word" where
  "hex_upper d = (if d < 10 then of_nat (48 + d) else of_nat (55 + d))"

definition percent :: "8 word \<Rightarrow> jsstring" where
  "percent b = [0x25, hex_upper (unat b div 16), hex_upper (unat b mod 16)]"

definition encode_code_point :: "nat \<Rightarrow> jsstring" where
  "encode_code_point n = (if uri_unescaped n then [of_nat n]
     else concat (map percent (utf8_of_code_point n)))"

definition encodeURIComponent :: "jsstring \<Rightarrow> jsstring option" where
  "encodeURIComponent s =
     map_option (\<lambda>ns. concat (map encode_code_point ns)) (those (code_points s))"

text \<open>
  \<open>decodeURIComponent\<close> copies every character other than \<open>%\<close>, reads \<open>%XX\<close> as a byte,
  and reads a run of escaped bytes that starts with a lead byte as one code point, which
  must be well-formed UTF-8. It throws \<open>URIError\<close> otherwise: the result is \<open>None\<close> then.
\<close>

definition hex_value :: "16 word \<Rightarrow> nat option" where
  "hex_value c = (let n = unat c in
     if 48 \<le> n \<and> n \<le> 57 then Some (n - 48)
     else if 65 \<le> n \<and> n \<le> 70 then Some (n - 55)
     else if 97 \<le> n \<and> n \<le> 102 then Some (n - 87)
     else None)"

datatype uri_token = Literal "16 word" | Octet "8 word"

fun uri_tokens :: "jsstring \<Rightarrow> uri_token list option" where
  "uri_tokens [] = Some []"
| "uri_tokens (c # cs) =
     (if c \<noteq> 0x25 then map_option ((#) (Literal c)) (uri_tokens cs)
      else (case cs of
          h # l # r \<Rightarrow>
            (case (hex_value h, hex_value l) of
               (Some a, Some b) \<Rightarrow> map_option ((#) (Octet (of_nat (16 * a + b)))) (uri_tokens r)
             | _ \<Rightarrow> None)
        | _ \<Rightarrow> None))"

fun octets :: "uri_token list \<Rightarrow> 8 word list option" where
  "octets [] = Some []"
| "octets (Octet b # ts) = map_option ((#) b) (octets ts)"
| "octets (Literal c # ts) = None"

definition utf8_code_point :: "nat \<Rightarrow> 8 word list \<Rightarrow> nat option" where
  "utf8_code_point n bs =
     (case bs of
        [] \<Rightarrow> None
      | b1 # r \<Rightarrow>
          if length bs = needed n \<and> second_ok n b1 \<and> list_all continuation r
          then Some (foldl (\<lambda>a b. a * 0x40 + (unat b - 0x80))
                 (n - (if needed n = 1 then 0xC0 else if needed n = 2 then 0xE0 else 0xF0)) bs)
          else None)"

function uri_decode_tokens :: "uri_token list \<Rightarrow> jsstring option" where
  "uri_decode_tokens [] = Some []"
| "uri_decode_tokens (Literal c # ts) = map_option ((#) c) (uri_decode_tokens ts)"
| "uri_decode_tokens (Octet b # ts) =
     (if unat b < 0x80 then map_option ((#) (of_nat (unat b))) (uri_decode_tokens ts)
      else (case octets (take (needed (unat b)) ts) of
          None \<Rightarrow> None
        | Some bs \<Rightarrow>
            (case utf8_code_point (unat b) bs of
               None \<Rightarrow> None
             | Some cp \<Rightarrow>
                 map_option ((@) (code_units cp))
                   (uri_decode_tokens (drop (needed (unat b)) ts)))))"
  by pat_completeness auto
termination
  by (relation "measure length") auto

definition decodeURIComponent :: "jsstring \<Rightarrow> jsstring option" where
  "decodeURIComponent s = (case uri_tokens s of None \<Rightarrow> None | Some ts \<Rightarrow> uri_decode_tokens ts)"

subsection \<open>Other string functions\<close>

text \<open>\<open>str.split(sep)\<close> for a separator of one character; the result is never empty.\<close>

fun split :: "16 word \<Rightarrow> jsstring \<Rightarrow> jsstring list" where
  "split sep [] = [[]]"
| "split sep (c # cs) =
     (if c = sep then [] # split sep cs
      else (case split sep cs of p # ps \<Rightarrow> (c # p) # ps | [] \<Rightarrow> [[c]]))"

text \<open>\<open>parts.join(sep)\<close>.\<close>

fun join :: "jsstring \<Rightarrow> jsstring list \<Rightarrow> jsstring" where
  "join sep [] = []"
| "join sep [p] = p"
| "join sep (p # q # ps) = p @ sep @ join sep (q # ps)"

text \<open>\<open>str.replace(/a/g, "b")\<close> for single characters \<open>a\<close> and \<open>b\<close>.\<close>

definition replace_all :: "16 word \<Rightarrow> 16 word \<Rightarrow> jsstring \<Rightarrow> jsstring" where
  "replace_all a b s = map (\<lambda>c. if c = a then b else c) s"

text \<open>
  \<open>parseInt(s, 10)\<close>: white space at the start is dropped, then one sign is read, then
  the longest run of decimal digits; what follows the digits is ignored. With no digit the
  result is \<open>NaN\<close>, otherwise the number nearest to the integer read.
\<close>

definition is_whitespace :: "16 word \<Rightarrow> bool" where
  "is_whitespace c = (unat c \<in> set [0x9, 0xA, 0xB, 0xC, 0xD, 0x20, 0xA0, 0x1680, 0x2028,
       0x2029, 0x202F, 0x205F, 0x3000, 0xFEFF]
     \<or> (0x2000 \<le> unat c \<and> unat c \<le> 0x200A))"

definition is_digit :: "16 word \<Rightarrow> bool" where
  "is_digit c = (48 \<le> unat c \<and> unat c \<le> 57)"

definition digits_value :: "jsstring \<Rightarrow> nat" where
  "digits_value z = foldl (\<lambda>a c. 10 * a + (unat c - 48)) 0 z"

definition parseInt :: "jsstring \<Rightarrow> number" where
  "parseInt s =
     (let t = dropWhile is_whitespace s;
          negative = (case t of [] \<Rightarrow> False | c # r \<Rightarrow> c = 0x2D);
          u = (case t of [] \<Rightarrow> [] | c # r \<Rightarrow> if c = 0x2B \<or> c = 0x2D then r else t);
          z = takeWhile is_digit u
      in if z = [] then NaN
         else to_double ((if negative then - 1 else 1) * of_nat (digits_value z)))"

text \<open>
  The functions of the runtime that are not modelled are parameters: the MD5 digest of a
  string in hexadecimal (\<open>createHash("md5").update(s).digest("hex")\<close>), the lower-casing
  of a string by the Unicode tables, and the digits of a number that is not a small
  integer.
\<close>

record platform =
  md5_hex :: "jsstring \<Rightarrow> jsstring"
  toLowerCase :: "jsstring \<Rightarrow> jsstring"
  number_digits :: "rat \<Rightarrow> jsstring"

section \<open>paysera-errors.ts\<close>

text \<open>
  The three error classes of the module, each with its message, and the \<open>URIError\<close> that
  the built-in percent-coding functions throw.
\<close>

datatype error = PayseraSignatureError string | PayseraConfigError string
  | PayseraCallbackDataError string | URIError

section \<open>paysera-types.ts\<close>

record PayseraConfig =
  projectId :: jsstring
  password :: jsstring
  testMode :: bool

text \<open>
  \<open>PayseraRequestParams\<close>: the object as the list of its entries, in the order in which
  \<open>Object.entries\<close> gives them, which for these keys is the order of insertion. A value
  is a string or a number, or \<open>undefined\<close> or \<open>null\<close>.
\<close>

datatype param_value = Undefined | Null | Str jsstring | Number number

type_synonym PayseraRequestParams = "(jsstring \<times> param_value) list"

record PayseraCallbackUrls =
  acceptUrl :: jsstring
  cancelUrl :: jsstring
  callbackUrl :: jsstring

record PayseraPaymentRequest =
  redirectUrl :: jsstring
  orderId :: jsstring

text \<open>The options of \<open>createPaymentRequest\<close> (declared in paysera-client.ts).\<close>

record CreatePaymentOptions =
  transactionId :: jsstring
  amount :: number
  currency :: jsstring
  urls :: PayseraCallbackUrls
  customerEmail :: "jsstring option"
  customerFirstName :: "jsstring option"
  customerLastName :: "jsstring option"
  paymentDescription :: "jsstring option"
  language :: "jsstring option"

record PayseraCallbackData =
  projectid :: jsstring
  orderid :: jsstring
  amount :: number
  currency :: jsstring
  status :: number
  requestid :: jsstring
  paytext :: "jsstring option"
  name :: "jsstring option"
  surename :: "jsstring option"
  payment :: "jsstring option"
  country :: "jsstring option"
  test :: "number option"

text \<open>The constant object \<open>PayseraStatus\<close>.\<close>

definition PENDING :: number where "PENDING = Num 0"
definition SUCCESS :: number where "SUCCESS = Num 1"
definition ACCEPTED_NOT_EXECUTED :: number where "ACCEPTED_NOT_EXECUTED = Num 2"
definition ADDITIONAL_INFO_REQUIRED :: number where "ADDITIONAL_INFO_REQUIRED = Num 3"

section \<open>paysera-request-builder.ts\<close>

definition PAYSERA_PAYMENT_URL :: jsstring where
  "PAYSERA_PAYMENT_URL = js ''https://www.paysera.com/pay/''"

definition toUrlSafeBase64 :: "jsstring \<Rightarrow> jsstring" where
  "toUrlSafeBase64 str =
     replace_all 0x2B 0x2D (replace_all 0x2F 0x5F (base64_encode (utf8_write str)))"

definition fromUrlSafeBase64 :: "jsstring \<Rightarrow> jsstring" where
  "fromUrlSafeBase64 str =
     (let standardBase64 = replace_all 0x2D 0x2B (replace_all 0x5F 0x2F str)
      in utf8_toString (base64_decode standardBase64))"

definition generateSignature :: "platform \<Rightarrow> jsstring \<Rightarrow> jsstring \<Rightarrow> jsstring" where
  "generateSignature P = (\<lambda>data password. md5_hex P (data @ password))"

text \<open>\<open>String(value)\<close> for the value of a parameter.\<close>

definition to_String :: "platform \<Rightarrow> param_value \<Rightarrow> jsstring" where
  "to_String P value = (case value of
       Undefined \<Rightarrow> js ''undefined''
     | Null \<Rightarrow> js ''null''
     | Str s \<Rightarrow> s
     | Number x \<Rightarrow> number_toString (number_digits P) x)"

definition kept :: "jsstring \<times> param_value \<Rightarrow> bool" where
  "kept entry = (snd entry \<noteq> Undefined \<and> snd entry \<noteq> Null \<and> snd entry \<noteq> Str [])"

definition encode_entry :: "platform \<Rightarrow> jsstring \<times> param_value \<Rightarrow> jsstring option" where
  "encode_entry P entry =
     (case encodeURIComponent (fst entry) of
        None \<Rightarrow> None
      | Some k \<Rightarrow>
          (case encodeURIComponent (to_String P (snd entry)) of
             None \<Rightarrow> None
           | Some v \<Rightarrow> Some (k @ js ''='' @ v)))"

definition encodeParams :: "platform \<Rightarrow> PayseraRequestParams \<Rightarrow> error + jsstring" where
  "encodeParams P params =
     (case those (map (encode_entry P) (filter kept params)) of
        None \<Rightarrow> Inl URIError
      | Some entries \<Rightarrow> Inr (join (js ''&'') entries))"

record SignedRequest =
  data :: jsstring
  sign :: jsstring

definition buildRequest ::
  "platform \<Rightarrow> PayseraRequestParams \<Rightarrow> jsstring \<Rightarrow> error + SignedRequest" where
  "buildRequest P params = (\<lambda>password.
     case encodeParams P params of
       Inl e \<Rightarrow> Inl e
     | Inr encodedParams \<Rightarrow>
         (let data = toUrlSafeBase64 encodedParams;
              sign = generateSignature P data password
          in Inr \<lparr>SignedRequest.data = data, sign = sign\<rparr>))"

definition getPaymentUrl :: "jsstring \<Rightarrow> jsstring \<Rightarrow> jsstring" where
  "getPaymentUrl = (\<lambda>data sign.
     PAYSERA_PAYMENT_URL @ js ''?data='' @ data @ js ''&sign='' @ sign)"

definition buildPaymentUrl ::
  "platform \<Rightarrow> PayseraRequestParams \<Rightarrow> jsstring \<Rightarrow> error + jsstring" where
  "buildPaymentUrl P params = (\<lambda>password.
     case buildRequest P params password of
       Inl e \<Rightarrow> Inl e
     | Inr r \<Rightarrow> Inr (getPaymentUrl (SignedRequest.data r) (sign r)))"

section \<open>paysera-callback-handler.ts\<close>

record PayseraRawCallback =
  data :: jsstring
  ss1 :: jsstring
  ss2 :: "jsstring option"

text \<open>
  \<open>params[key] = value\<close> on an object literal. The key \<open>__proto__\<close> is the accessor of the
  prototype, which ignores a string, so that assignment stores nothing.
\<close>

definition set_property ::
  "(jsstring \<rightharpoonup> jsstring) \<Rightarrow> jsstring \<Rightarrow> jsstring \<Rightarrow> (jsstring \<rightharpoonup> jsstring)" where
  "set_property params key value = (if key = js ''__proto__'' then params else params(key \<mapsto> value))"

text \<open>
  The body of the \<open>forEach\<close> of \<open>parseQueryString\<close>, run over the pairs in order.
  \<open>const [key, value] = pair.split("=")\<close> takes the first two parts of the split: \<open>value\<close>
  is \<open>undefined\<close> when there is one part only, and the parts after the second are unused.
\<close>

fun parse_pairs ::
  "jsstring list \<Rightarrow> (jsstring \<rightharpoonup> jsstring) \<Rightarrow> error + (jsstring \<rightharpoonup> jsstring)" where
  "parse_pairs [] params = Inr params"
| "parse_pairs (pair # pairs) params =
     (let parts = split 0x3D pair;
          key = (case parts of [] \<Rightarrow> [] | k # r \<Rightarrow> k);
          value = (case parts of k # v # r \<Rightarrow> Some v | _ \<Rightarrow> None)
      in if key \<noteq> [] then
           (case decodeURIComponent key of
              None \<Rightarrow> Inl URIError
            | Some k \<Rightarrow>
                (case (case value of None \<Rightarrow> Some [] | Some v \<Rightarrow>
                         if v \<noteq> [] then decodeURIComponent v else Some []) of
                   None \<Rightarrow> Inl URIError
                 | Some v \<Rightarrow> parse_pairs pairs (set_property params k v)))
         else parse_pairs pairs params)"

definition parseQueryString :: "jsstring \<Rightarrow> error + (jsstring \<rightharpoonup> jsstring)" where
  "parseQueryString queryString = parse_pairs (split 0x26 queryString) Map.empty"

definition verifySignature :: "platform \<Rightarrow> jsstring \<Rightarrow> jsstring \<Rightarrow> jsstring \<Rightarrow> bool" where
  "verifySignature P = (\<lambda>data ss1 password.
     let expectedSignature = generateSignature P data password
     in toLowerCase P expectedSignature = toLowerCase P ss1)"

definition decodeCallbackData :: "jsstring \<Rightarrow> error + (jsstring \<rightharpoonup> jsstring)" where
  "decodeCallbackData = (\<lambda>data.
     let decoded = fromUrlSafeBase64 data in parseQueryString decoded)"

definition required :: "string list" where
  "required = [''projectid'', ''orderid'', ''amount'', ''currency'', ''status'', ''requestid'']"

text \<open>The loop over \<open>required\<close>: the error of the first field that is not in the object.\<close>

fun missing_field :: "string list \<Rightarrow> (jsstring \<rightharpoonup> jsstring) \<Rightarrow> error option" where
  "missing_field [] rawData = None"
| "missing_field (field # rest) rawData =
     (if rawData (js field) = None
      then Some (PayseraCallbackDataError (''Missing required field: '' @ field))
      else missing_field rest rawData)"

text \<open>A property that is read as a string: \<open>undefined\<close> reads as the word.\<close>

definition as_string :: "jsstring option \<Rightarrow> jsstring" where
  "as_string v = (case v of None \<Rightarrow> js ''undefined'' | Some s \<Rightarrow> s)"

definition parseCallbackData :: "(jsstring \<rightharpoonup> jsstring) \<Rightarrow> error + PayseraCallbackData" where
  "parseCallbackData rawData =
     (case missing_field required rawData of
        Some e \<Rightarrow> Inl e
      | None \<Rightarrow>
          (let amount = parseInt (as_string (rawData (js ''amount'')))
           in if isNaN amount then Inl (PayseraCallbackDataError ''Invalid amount value'')
              else
                (let status = parseInt (as_string (rawData (js ''status'')))
                 in if isNaN status then Inl (PayseraCallbackDataError ''Invalid status value'')
                    else Inr \<lparr>
                      projectid = as_string (rawData (js ''projectid'')),
                      orderid = as_string (rawData (js ''orderid'')),
                      amount = amount,
                      currency = as_string (rawData (js ''currency'')),
                      status = status,
                      requestid = as_string (rawData (js ''requestid'')),
                      paytext = rawData (js ''paytext''),
                      name = rawData (js ''name''),
                      surename = rawData (js ''surename''),
                      payment = rawData (js ''payment''),
                      country = rawData (js ''country''),
                      test = (if rawData (js ''test'') = Some (js ''1'') then Some (Num 1)
                              else if rawData (js ''test'') = Some (js ''0'') then Some (Num 0)
                              else None)\<rparr>)))"

definition verifyAndDecodeCallback ::
  "platform \<Rightarrow> PayseraRawCallback \<Rightarrow> jsstring \<Rightarrow> error + PayseraCallbackData" where
  "verifyAndDecodeCallback P rawCallback = (\<lambda>password.
     (let data = PayseraRawCallback.data rawCallback; ss1 = PayseraRawCallback.ss1 rawCallback
      in if data = [] \<or> ss1 = []
         then Inl (PayseraCallbackDataError ''Missing data or signature in callback'')
         else if \<not> verifySignature P data ss1 password
         then Inl (PayseraSignatureError ''Invalid callback signature'')
         else (case decodeCallbackData data of
                 Inl e \<Rightarrow> Inl e
               | Inr decodedData \<Rightarrow> parseCallbackData decodedData)))"

section \<open>paysera-client.ts\<close>

definition PAYSERA_API_VERSION :: jsstring where
  "PAYSERA_API_VERSION = js ''1.6''"

record PayseraClient =
  config :: PayseraConfig

text \<open>The constructor.\<close>

definition new_PayseraClient :: "PayseraConfig \<Rightarrow> error + PayseraClient" where
  "new_PayseraClient = (\<lambda>config.
     if projectId config = [] \<or> password config = []
     then Inl (PayseraConfigError ''Project ID and password are required'')
     else Inr \<lparr>config = config\<rparr>)"

definition toMinorUnits :: "number \<Rightarrow> number" where
  "toMinorUnits = (\<lambda>amount. Math_round (js_mul amount (Num 100)))"

definition is_alphanumeric :: "16 word \<Rightarrow> bool" where
  "is_alphanumeric c = ((97 \<le> unat c \<and> unat c \<le> 122) \<or> (65 \<le> unat c \<and> unat c \<le> 90)
     \<or> (48 \<le> unat c \<and> unat c \<le> 57))"

text \<open>
  \<open>generateOrderId\<close>; the result of the call \<open>uuidv7()\<close> is the argument \<open>uuid\<close>.
\<close>

definition generateOrderId :: "jsstring \<Rightarrow> jsstring \<Rightarrow> jsstring" where
  "generateOrderId uuid = (\<lambda>transactionId.
     let shortTxId = take 8 (filter is_alphanumeric transactionId);
         shortUuid = take 24 (filter (\<lambda>c. c \<noteq> 0x2D) uuid)
     in take 40 (shortTxId @ shortUuid))"

text \<open>An optional property is added when the option is set to a string that is not empty.\<close>

definition add_optional ::
  "string \<Rightarrow> jsstring option \<Rightarrow> PayseraRequestParams \<Rightarrow> PayseraRequestParams" where
  "add_optional key v params =
     (case v of None \<Rightarrow> params | Some s \<Rightarrow> if s \<noteq> [] then params @ [(js key, Str s)] else params)"

definition request_params ::
  "PayseraClient \<Rightarrow> jsstring \<Rightarrow> CreatePaymentOptions \<Rightarrow> PayseraRequestParams" where
  "request_params client order_id options =
     add_optional ''lang'' (language options)
      (add_optional ''paytext'' (paymentDescription options)
        (add_optional ''p_lastname'' (customerLastName options)
          (add_optional ''p_firstname'' (customerFirstName options)
            (add_optional ''p_email'' (customerEmail options)
              [(js ''projectid'', Str (projectId (config client))),
               (js ''orderid'', Str order_id),
               (js ''accepturl'', Str (acceptUrl (urls options))),
               (js ''cancelurl'', Str (cancelUrl (urls options))),
               (js ''callbackurl'', Str (callbackUrl (urls options))),
               (js ''version'', Str PAYSERA_API_VERSION),
               (js ''amount'', Number (toMinorUnits (CreatePaymentOptions.amount options))),
               (js ''currency'', Str (CreatePaymentOptions.currency options)),
               (js ''test'', Number (if testMode (config client) then Num 1 else Num 0))]))))"

definition createPaymentRequest ::
  "platform \<Rightarrow> PayseraClient \<Rightarrow> jsstring \<Rightarrow> CreatePaymentOptions
     \<Rightarrow> error + PayseraPaymentRequest" where
  "createPaymentRequest P client uuid options =
     (let orderId = generateOrderId uuid (transactionId options);
          params = request_params client orderId options
      in case buildPaymentUrl P params (password (config client)) of
           Inl e \<Rightarrow> Inl e
         | Inr url \<Rightarrow> Inr \<lparr>redirectUrl = url, orderId = orderId\<rparr>)"

definition processCallback ::
  "platform \<Rightarrow> PayseraClient \<Rightarrow> PayseraRawCallback \<Rightarrow> error + PayseraCallbackData" where
  "processCallback P client rawCallback =
     verifyAndDecodeCallback P rawCallback (password (config client))"

definition isPaymentSuccessful :: "PayseraCallbackData \<Rightarrow> bool" where
  "isPaymentSuccessful callbackData = (PayseraCallbackData.status callbackData = SUCCESS)"

definition isPaymentPending :: "PayseraCallbackData \<Rightarrow> bool" where
  "isPaymentPending callbackData =
     (status callbackData = PENDING \<or> status callbackData = ACCEPTED_NOT_EXECUTED)"

section \<open>Definitions that follow the words of the specification\<close>

text \<open>
  The specification asks that \<open>amount\<close> and \<open>status\<close> "parse as base-10 integers". Read
  strictly, a string is a base-10 integer when it is an optional sign followed by decimal
  digits and nothing else.
\<close>

definition is_base10_integer :: "jsstring \<Rightarrow> bool" where
  "is_base10_integer s =
     (let d = (case s of [] \<Rightarrow> [] | c # r \<Rightarrow> if c = 0x2B \<or> c = 0x2D then r else s)
      in d \<noteq> [] \<and> list_all is_digit d)"

section \<open>Notions used in the statements\<close>

text \<open>A lower-case hexadecimal digit.\<close>

definition is_hex :: "16 word \<Rightarrow> bool" where
  "is_hex c = ((48 \<le> unat c \<and> unat c \<le> 57) \<or> (97 \<le> unat c \<and> unat c \<le> 102))"

text \<open>
  The strings that \<open>uuidv7()\<close> of the uuid library returns: five groups of 8, 4, 4, 4 and
  12 lower-case hexadecimal digits, separated by hyphens.
\<close>

definition is_uuid :: "jsstring \<Rightarrow> bool" where
  "is_uuid u = (case split 0x2D u of
       [a, b, c, d, e] \<Rightarrow>
         length a = 8 \<and> length b = 4 \<and> length c = 4 \<and> length d = 4 \<and> length e = 12
         \<and> list_all is_hex (a @ b @ c @ d @ e)
     | _ \<Rightarrow> False)"

text \<open>A string is well formed when it has no surrogate on its own.\<close>

definition well_formed :: "jsstring \<Rightarrow> bool" where
  "well_formed s = list_all (\<lambda>cp. cp \<noteq> None) (code_points s)"

text \<open>
  An entry of a parameter set can be percent-encoded when its key and the string of its
  value are well formed.
\<close>

definition encodable :: "platform \<Rightarrow> jsstring \<times> param_value \<Rightarrow> bool" where
  "encodable P entry = (well_formed (fst entry) \<and> well_formed (to_String P (snd entry)))"

text \<open>
  \<open>encoded_entry P entry e\<close>: the string \<open>e\<close> is \<open>key=value\<close> for the entry, with
  \<open>encodeURIComponent\<close> applied to the key and to \<open>String(value)\<close>.
\<close>

definition encoded_entry :: "platform \<Rightarrow> jsstring \<times> param_value \<Rightarrow> jsstring \<Rightarrow> bool" where
  "encoded_entry P entry e =
     (\<exists>k v. encodeURIComponent (fst entry) = Some k \<and>
        encodeURIComponent (to_String P (snd entry)) = Some v \<and> e = k @ js ''='' @ v)"

text \<open>The characters of a percent-encoded string: \<open>%\<close> and the unreserved ones.\<close>

definition encoded_char :: "16 word \<Rightarrow> bool" where
  "encoded_char c = (c = 0x25 \<or> uri_unescaped (unat c))"

text \<open>An optional string is well formed when it is unset or a well-formed string.\<close>

definition well_formed_option :: "jsstring option \<Rightarrow> bool" where
  "well_formed_option v = (case v of None \<Rightarrow> True | Some s \<Rightarrow> well_formed s)"

text \<open>
  The strings of the configuration and of the options of a request are well formed, and
  so are the digits that the runtime prints for a number.
\<close>

definition well_formed_request :: "platform \<Rightarrow> PayseraClient \<Rightarrow> CreatePaymentOptions \<Rightarrow> bool" where
  "well_formed_request P client options =
     ((\<forall>q. well_formed (number_digits P q)) \<and>
      well_formed (projectId (config client)) \<and>
      well_formed (acceptUrl (urls options)) \<and> well_formed (cancelUrl (urls options)) \<and>
      well_formed (callbackUrl (urls options)) \<and>
      well_formed (CreatePaymentOptions.currency options) \<and>
      well_formed_option (customerEmail options) \<and>
      well_formed_option (customerFirstName options) \<and>
      well_formed_option (customerLastName options) \<and>
      well_formed_option (paymentDescription options) \<and>
      well_formed_option (language options))"




section \<open>Lemmas\<close>

subsection \<open>Literals\<close>

lemma unat_of_char: "unat (of_char c :: 16 word) = of_char c"
proof -
  have "(of_char c :: nat) < 2 ^ 16"
    by (rule less_trans [of _ 256]) simp_all
  then have "unat (of_nat (of_char c) :: 16 word) = of_char c"
    by (simp add: unat_of_nat)
  then show ?thesis by (simp only: of_nat_of_char)
qed

lemma of_char_word_eq_iff: "(of_char a :: 16 word) = of_char b \<longleftrightarrow> a = b"
proof
  assume "(of_char a :: 16 word) = of_char b"
  then have "(of_char a :: nat) = of_char b"
    using unat_of_char by metis
  then show "a = b" by simp
qed simp

lemma js_eq_iff [simp]: "js a = js b \<longleftrightarrow> a = b"
proof -
  have "inj (of_char :: char \<Rightarrow> 16 word)"
    by (simp add: inj_on_def of_char_word_eq_iff)
  then show ?thesis
    unfolding js_def by (rule inj_map_eq_map)
qed

lemma js_Nil [simp]: "js [] = []" "js s = [] \<longleftrightarrow> s = []" "[] = js s \<longleftrightarrow> s = []"
  by (auto simp: js_def)

subsection \<open>Rounding to binary64\<close>

lemma round_half_even_of_int: "round_half_even (of_int m) = m"
  by (simp add: round_half_even_def Let_def)

lemma power_int_neg_rat: "p < 0 \<Longrightarrow> power_int (2::rat) p = 1 / 2 ^ nat (- p)"
  by (simp add: power_int_def field_simps)

lemma power_int_nonneg_rat: "0 \<le> p \<Longrightarrow> power_int (2::rat) p = of_int (2 ^ nat p)"
  by (simp add: power_int_def)

lemma scaled_int:
  "\<exists>j. of_int (round_half_even (\<bar>of_int n\<bar> / power_int 2 p)) * power_int (2::rat) p = of_int j"
proof (cases "0 \<le> p")
  case True
  show ?thesis
    unfolding power_int_nonneg_rat [OF True] of_int_mult [symmetric] by blast
next
  case False
  then have p: "p < 0" by simp
  have "\<bar>of_int n\<bar> / power_int (2::rat) p = of_int (\<bar>n\<bar> * 2 ^ nat (- p))"
    by (simp add: power_int_neg_rat [OF p])
  then have "round_half_even (\<bar>of_int n\<bar> / power_int 2 p) = \<bar>n\<bar> * 2 ^ nat (- p)"
    using round_half_even_of_int by metis
  then have "of_int (round_half_even (\<bar>of_int n\<bar> / power_int 2 p)) * power_int (2::rat) p
      = of_int \<bar>n\<bar>"
    by (simp add: power_int_neg_rat [OF p])
  then show ?thesis by blast
qed

lemma to_double_of_int:
  "to_double (of_int n) = Infinity \<or> to_double (of_int n) = NegInfinity \<or>
   (\<exists>i. to_double (of_int n) = Num (of_int i))"
proof (cases "n = 0")
  case True
  then show ?thesis
    by (simp add: to_double_def)
next
  case False
  define p where "p = max (floor_log2 \<bar>of_int n\<bar> - 52) (- 1074)"
  obtain j where j: "of_int (round_half_even (\<bar>of_int n\<bar> / power_int 2 p)) * power_int (2::rat) p
      = of_int j"
    using scaled_int by blast
  have "sgn (of_int n :: rat) = of_int (sgn n)"
    by (cases "0 < n") (use False in auto)
  then have "sgn (of_int n :: rat) * of_int j = of_int (sgn n * j)"
    by simp
  then show ?thesis
    using False j unfolding to_double_def Let_def p_def [symmetric]
    by (auto simp del: of_int_mult)
qed

lemma floor_log2_of_int:
  assumes "0 < n"
  shows "floor_log2 (of_int n) = bitlen n - 1"
proof -
  have b: "1 \<le> bitlen n"
    using assms by (auto simp: bitlen_alt_def)
  have "(2::int) ^ nat (bitlen n - 1) \<le> n"
    using bitlen_bounds [OF assms] by simp
  then have "(of_int ((2::int) ^ nat (bitlen n - 1)) :: rat) \<le> of_int n"
    by (simp only: of_int_le_iff)
  then have "power_int (2::rat) (bitlen n - 1) \<le> of_int n"
    using b by (simp add: power_int_def)
  moreover have "bitlen 1 = 1"
    by (simp add: bitlen_alt_def)
  ultimately show ?thesis
    by (simp add: floor_log2_def)
qed

lemma to_double_exact_aux:
  assumes "0 < a" "\<bar>of_int a\<bar> / power_int (2::rat) p = of_int k" "a \<le> 2 ^ 53"
  shows "of_int (round_half_even (\<bar>of_int a\<bar> / power_int (2::rat) p)) * power_int (2::rat) p
    = of_int a"
proof -
  have "power_int (2::rat) p \<noteq> 0" by simp
  then have k: "of_int k * power_int (2::rat) p = \<bar>of_int a\<bar>"
    using assms(2) by (metis nonzero_divide_eq_eq)
  have "of_int (round_half_even (\<bar>of_int a\<bar> / power_int (2::rat) p)) * power_int (2::rat) p
      = of_int k * power_int (2::rat) p"
    by (simp only: assms(2) round_half_even_of_int)
  also have "\<dots> = of_int a"
    using k assms(1) by simp
  finally show ?thesis .
qed

lemma to_double_safe_pos:
  assumes "0 < a" "a \<le> 2 ^ 53"
  shows "to_double (of_int a) = Num (of_int a)"
proof -
  define p where "p = max (floor_log2 \<bar>of_int a\<bar> - 52) (- 1074)"
  have fl: "floor_log2 \<bar>of_int a\<bar> = bitlen a - 1"
    using floor_log2_of_int [OF assms(1)] assms(1) by simp
  have "\<exists>k. \<bar>of_int a\<bar> / power_int (2::rat) p = of_int k"
  proof (cases "a = 2 ^ 53")
    case True
    then have "bitlen a = 54"
      using bitlen_twopow_add_eq [of 0 53] by simp
    then have "p = 1"
      by (simp add: p_def fl)
    then have "\<bar>of_int a\<bar> / power_int (2::rat) p = of_int (2 ^ 52)"
      using True by simp
    then show ?thesis by blast
  next
    case False
    then have "a < 2 ^ 53" using assms(2) by simp
    then have "bitlen a \<le> 53"
      using bitlen_le_iff_power [of a 53] by simp
    then have "p \<le> 0"
      by (simp add: p_def fl)
    then have "\<bar>of_int a\<bar> / power_int (2::rat) p = of_int (\<bar>a\<bar> * 2 ^ nat (- p))"
      by (simp add: power_int_def field_simps)
    then show ?thesis by blast
  qed
  then obtain k where "\<bar>of_int a\<bar> / power_int (2::rat) p = of_int k" by blast
  then have v: "of_int (round_half_even (\<bar>of_int a\<bar> / power_int (2::rat) p)) * power_int (2::rat) p
    = of_int a"
    using to_double_exact_aux assms by blast
  have "(of_int a :: rat) \<le> of_int (2 ^ 53)"
    using assms(2) by (simp only: of_int_le_iff)
  then have "\<not> (2::rat) ^ 1024 \<le> of_int a"
    by simp
  then show ?thesis
    using assms(1) unfolding to_double_def Let_def p_def [symmetric] v by simp
qed

lemma to_double_neg: "to_double (- q) = negate (to_double q)"
  by (simp add: to_double_def Let_def negate_def sgn_minus)

lemma to_double_safe:
  assumes "\<bar>n\<bar> \<le> 2 ^ 53"
  shows "to_double (of_int n) = Num (of_int n)"
proof (cases "n = 0")
  case True
  then show ?thesis by (simp add: to_double_def)
next
  case False
  show ?thesis
  proof (cases "0 < n")
    case True
    then show ?thesis using to_double_safe_pos assms by simp
  next
    case False
    then have "0 < - n" "- n \<le> 2 ^ 53" using \<open>n \<noteq> 0\<close> assms by simp_all
    then have "to_double (of_int (- n)) = Num (of_int (- n))"
      using to_double_safe_pos by blast
    then have "negate (to_double (of_int n)) = Num (- of_int n)"
      using to_double_neg [of "of_int n"] by simp
    then show ?thesis
      by (cases "to_double (of_int n)") (simp_all add: negate_def)
  qed
qed

lemma round_half_even_ge: "\<lfloor>x\<rfloor> \<le> round_half_even x"
  by (simp add: round_half_even_def Let_def)

lemma to_double_overflow_pos:
  assumes "2 ^ 1024 \<le> a"
  shows "to_double (of_int a) = Infinity"
proof -
  have pos: "0 < a"
    using assms by (smt (verit) zero_less_power)
  define e where "e = bitlen a - 1"
  have e: "1024 \<le> e"
    using bitlen_ge_iff_power [of 1025 a] assms by (simp add: e_def)
  have fl: "floor_log2 \<bar>of_int a\<bar> = e"
    using floor_log2_of_int [OF pos] pos by (simp add: e_def)
  define p where "p = max (floor_log2 \<bar>of_int a\<bar> - 52) (- 1074)"
  have p: "p = e - 52" "0 \<le> p"
    using e by (simp_all add: p_def fl)
  have "(2::int) ^ nat e \<le> a"
    using bitlen_bounds [OF pos] by (simp add: e_def)
  moreover have "nat e = 52 + nat p"
    using e p by simp
  then have "(2::int) ^ nat e = 2 ^ 52 * 2 ^ nat p"
    by (simp only: power_add)
  ultimately have "(2::int) ^ 52 * 2 ^ nat p \<le> a" by simp
  then have "(of_int ((2::int) ^ 52 * 2 ^ nat p) :: rat) \<le> of_int a"
    by (simp only: of_int_le_iff)
  then have le: "(2::rat) ^ 52 * 2 ^ nat p \<le> of_int a"
    by simp
  have pw: "power_int (2::rat) p = 2 ^ nat p"
    using p(2) by (simp add: power_int_def)
  have "(2::rat) ^ 52 \<le> \<bar>of_int a\<bar> / power_int 2 p"
    unfolding pw using le pos by (simp add: pos_le_divide_eq)
  then have "(2::int) ^ 52 \<le> \<lfloor>\<bar>of_int a\<bar> / power_int (2::rat) p\<rfloor>"
    by (simp add: le_floor_iff)
  then have "(2::int) ^ 52 \<le> round_half_even (\<bar>of_int a\<bar> / power_int (2::rat) p)"
    using round_half_even_ge order_trans by blast
  then have B: "(2::int) ^ 52 * 2 ^ nat p
      \<le> round_half_even (\<bar>of_int a\<bar> / power_int (2::rat) p) * 2 ^ nat p"
    by (rule mult_right_mono) simp
  have A: "(2::int) ^ 1024 \<le> 2 ^ 52 * 2 ^ nat p"
  proof -
    have "(1024::nat) \<le> 52 + nat p" using e p by simp
    then have "(2::int) ^ 1024 \<le> 2 ^ (52 + nat p)"
      by (rule power_increasing) simp
    then show ?thesis by (simp only: power_add)
  qed
  have "(2::int) ^ 1024 \<le> round_half_even (\<bar>of_int a\<bar> / power_int (2::rat) p) * 2 ^ nat p"
    by (rule order_trans [OF A B])
  then have "(of_int ((2::int) ^ 1024) :: rat) \<le>
      of_int (round_half_even (\<bar>of_int a\<bar> / power_int (2::rat) p) * 2 ^ nat p)"
    by (simp only: of_int_le_iff)
  then have "(2::rat) ^ 1024 \<le>
      of_int (round_half_even (\<bar>of_int a\<bar> / power_int (2::rat) p)) * power_int 2 p"
    unfolding pw by simp
  then show ?thesis
    using pos unfolding to_double_def Let_def p_def [symmetric] by simp
qed

lemma to_double_numeral:
  "(numeral k :: int) \<le> 2 ^ 53 \<Longrightarrow> to_double (numeral k) = Num (numeral k)"
  using to_double_safe [of "numeral k"] by simp

lemma to_double_0_1: "to_double 0 = Num 0" "to_double 1 = Num 1"
  using to_double_safe [of 0] to_double_safe [of 1] by simp_all

subsection \<open>\<open>parseInt\<close>\<close>

lemma to_double_not_NaN: "to_double q \<noteq> NaN"
  by (simp add: to_double_def Let_def)

lemma dropWhile_decomp:
  "\<exists>ws. s = ws @ dropWhile P s \<and> list_all P ws"
  by (metis list_all_iff set_takeWhileD takeWhile_dropWhile_id)

lemma digit_not_whitespace: "is_digit d \<Longrightarrow> \<not> is_whitespace d"
  by (auto simp: is_digit_def is_whitespace_def)

lemma digit_not_sign: "is_digit d \<Longrightarrow> d \<noteq> 0x2B \<and> d \<noteq> 0x2D"
  by (auto simp: is_digit_def)

lemma sign_not_whitespace: "\<not> is_whitespace 0x2B" "\<not> is_whitespace 0x2D"
  by (simp_all add: is_whitespace_def)

lemma dropWhile_all: "list_all P ws \<Longrightarrow> dropWhile P (ws @ t) = dropWhile P t"
  by (induction ws) auto

lemma parseInt_digits:
  assumes "list_all is_whitespace ws" "sg = [] \<or> sg = js ''+'' \<or> sg = js ''-''" "is_digit d"
  shows "parseInt (ws @ sg @ d # rest) =
    to_double ((if sg = js ''-'' then - 1 else 1)
       * of_nat (digits_value (d # takeWhile is_digit rest)))"
proof -
  have t: "dropWhile is_whitespace (ws @ sg @ d # rest) = sg @ d # rest"
    using assms
    by (auto simp: dropWhile_all js_def digit_not_whitespace sign_not_whitespace)
  show ?thesis
    unfolding parseInt_def t using assms(2,3) digit_not_sign [OF assms(3)]
    by (auto simp: js_def Let_def)
qed

lemma parseInt_NaN_iff:
  "parseInt s \<noteq> NaN \<longleftrightarrow>
     (\<exists>ws sg d rest. s = ws @ sg @ d # rest \<and> list_all is_whitespace ws \<and>
        (sg = [] \<or> sg = js ''+'' \<or> sg = js ''-'') \<and> is_digit d)"
proof
  assume "parseInt s \<noteq> NaN"
  obtain ws where ws: "s = ws @ dropWhile is_whitespace s" "list_all is_whitespace ws"
    using dropWhile_decomp by blast
  define t where "t = dropWhile is_whitespace s"
  define u where "u = (case t of [] \<Rightarrow> [] | c # r \<Rightarrow> if c = 0x2B \<or> c = 0x2D then r else t)"
  have "takeWhile is_digit u \<noteq> []"
    using \<open>parseInt s \<noteq> NaN\<close> unfolding parseInt_def t_def u_def Let_def
    by (auto split: if_splits)
  then obtain d rest where u: "u = d # rest" "is_digit d"
    by (cases u) (auto split: if_splits)
  have "\<exists>sg. t = sg @ u \<and> (sg = [] \<or> sg = js ''+'' \<or> sg = js ''-'')"
    unfolding u_def by (cases t) (auto simp: js_def)
  then show "\<exists>ws sg d rest. s = ws @ sg @ d # rest \<and> list_all is_whitespace ws \<and>
        (sg = [] \<or> sg = js ''+'' \<or> sg = js ''-'') \<and> is_digit d"
    using ws u unfolding t_def by metis
next
  assume "\<exists>ws sg d rest. s = ws @ sg @ d # rest \<and> list_all is_whitespace ws \<and>
        (sg = [] \<or> sg = js ''+'' \<or> sg = js ''-'') \<and> is_digit d"
  then show "parseInt s \<noteq> NaN"
    using parseInt_digits to_double_not_NaN by metis
qed

lemma parseInt_kind:
  "parseInt s = NaN \<or> parseInt s = Infinity \<or> parseInt s = NegInfinity \<or>
   (\<exists>i. parseInt s = Num (of_int i))"
proof -
  have "parseInt s = NaN \<or> (\<exists>k. parseInt s = to_double (- 1 * rat_of_nat k)
      \<or> parseInt s = to_double (1 * rat_of_nat k))"
    unfolding parseInt_def Let_def by (auto simp del: mult_minus1 mult_1)
  moreover have "- 1 * rat_of_nat k = of_int (- int k)" "1 * rat_of_nat k = of_int (int k)" for k
    by simp_all
  ultimately have "parseInt s = NaN \<or> (\<exists>n. parseInt s = to_double (of_int n))"
    by metis
  then show ?thesis
    using to_double_of_int by metis
qed

lemmas eval_parseInt = parseInt_def js_def is_whitespace_def is_digit_def digits_value_def
  to_double_numeral to_double_0_1

lemma parseInt_12abc: "parseInt (js ''12abc'') = Num 12"
  by (simp add: eval_parseInt)

lemma parseInt_1000: "parseInt (js ''1000'') = Num 1000"
  by (simp add: eval_parseInt)

lemma parseInt_abc: "parseInt (js ''abc'') = NaN"
  by (simp add: eval_parseInt)

lemma parseInt_1: "parseInt (js ''1'') = Num 1"
  by (simp add: eval_parseInt)

lemma digits_value_power:
  "digits_value (js (CHR ''1'' # replicate n CHR ''0'')) = 10 ^ n"
proof (induction n)
  case 0
  show ?case by (simp add: digits_value_def js_def)
next
  case (Suc n)
  have "js (CHR ''1'' # replicate (Suc n) CHR ''0'') = js (CHR ''1'' # replicate n CHR ''0'') @ [48]"
    by (simp add: js_def replicate_append_same)
  then show ?case
    using Suc by (simp add: digits_value_def)
qed

lemma parseInt_power:
  "parseInt (js (CHR ''1'' # replicate n CHR ''0'')) = to_double (of_int (10 ^ n))"
proof -
  have d: "is_digit 49" "list_all is_digit (js (replicate n CHR ''0''))"
    by (simp_all add: is_digit_def js_def list_all_iff)
  have "parseInt ([] @ [] @ 49 # js (replicate n CHR ''0'')) =
      to_double ((if [] = js ''-'' then - 1 else 1)
       * of_nat (digits_value (49 # takeWhile is_digit (js (replicate n CHR ''0'')))))"
    by (rule parseInt_digits) (simp_all add: d)
  moreover have "takeWhile is_digit (js (replicate n CHR ''0'')) = js (replicate n CHR ''0'')"
    using d(2) by (simp add: list_all_iff)
  moreover have "49 # js (replicate n CHR ''0'') = js (CHR ''1'' # replicate n CHR ''0'')"
    by (simp add: js_def)
  ultimately show ?thesis
    by (simp add: digits_value_power)
qed

lemma parseInt_overflow: "parseInt (js (CHR ''1'' # replicate 309 CHR ''0'')) = Infinity"
  unfolding parseInt_power by (rule to_double_overflow_pos) simp

lemma not_integer_12abc: "\<not> is_base10_integer (js ''12abc'')"
  by (simp add: is_base10_integer_def js_def is_digit_def)

subsection \<open>The errors of each function\<close>

lemma parse_pairs_error: "parse_pairs pairs params = Inl e \<Longrightarrow> e = URIError"
proof (induction pairs arbitrary: params)
  case Nil
  then show ?case by simp
next
  case (Cons pair pairs)
  then show ?case
    by (auto simp: Let_def split: if_splits option.splits)
qed

lemma decodeCallbackData_error: "decodeCallbackData d = Inl e \<Longrightarrow> e = URIError"
  by (simp add: decodeCallbackData_def parseQueryString_def parse_pairs_error)

lemma missing_field_error:
  "missing_field fs rawData = Some e \<Longrightarrow>
     \<exists>f \<in> set fs. e = PayseraCallbackDataError (''Missing required field: '' @ f)"
  by (induction fs) (auto split: if_splits)

lemma parseCallbackData_error:
  "parseCallbackData rawData = Inl e \<Longrightarrow> \<exists>m. e = PayseraCallbackDataError m"
  by (auto simp: parseCallbackData_def Let_def split: option.splits if_splits
      dest!: missing_field_error)

lemma encodeParams_error: "encodeParams P params = Inl e \<Longrightarrow> e = URIError"
  by (auto simp: encodeParams_def split: option.splits)

lemma createPaymentRequest_error:
  "createPaymentRequest P client uuid options = Inl e \<Longrightarrow> e = URIError"
  by (auto simp: createPaymentRequest_def buildPaymentUrl_def buildRequest_def Let_def
      split: sum.splits dest: encodeParams_error)

subsection \<open>\<open>parseCallbackData\<close>\<close>

lemma missing_field_first:
  "\<forall>g \<in> set pre. rawData (js g) \<noteq> None \<Longrightarrow> rawData (js f) = None \<Longrightarrow>
   missing_field (pre @ f # post) rawData =
     Some (PayseraCallbackDataError (''Missing required field: '' @ f))"
  by (induction pre) auto

lemma missing_field_none:
  "missing_field fs rawData = None \<longleftrightarrow> (\<forall>g \<in> set fs. rawData (js g) \<noteq> None)"
  by (induction fs) auto

lemma parseCallbackData_present:
  assumes "rawData (js ''projectid'') = Some p" "rawData (js ''orderid'') = Some oid"
    "rawData (js ''amount'') = Some a" "rawData (js ''currency'') = Some c"
    "rawData (js ''status'') = Some st" "rawData (js ''requestid'') = Some r"
  shows "parseCallbackData rawData =
      (if parseInt a = NaN then Inl (PayseraCallbackDataError ''Invalid amount value'')
       else if parseInt st = NaN then Inl (PayseraCallbackDataError ''Invalid status value'')
       else Inr \<lparr>projectid = p, orderid = oid, amount = parseInt a, currency = c,
         status = parseInt st, requestid = r, paytext = rawData (js ''paytext''),
         name = rawData (js ''name''), surename = rawData (js ''surename''),
         payment = rawData (js ''payment''), country = rawData (js ''country''),
         test = (if rawData (js ''test'') = Some (js ''1'') then Some (Num 1)
                 else if rawData (js ''test'') = Some (js ''0'') then Some (Num 0)
                 else None)\<rparr>)"
proof -
  have "missing_field required rawData = None"
    using assms by (simp add: missing_field_none required_def)
  then show ?thesis
    using assms by (simp add: parseCallbackData_def Let_def isNaN_def as_string_def)
qed

lemma parseCallbackData_missing:
  assumes "required = pre @ f # post" "\<forall>g \<in> set pre. rawData (js g) \<noteq> None"
    "rawData (js f) = None"
  shows "parseCallbackData rawData =
    Inl (PayseraCallbackDataError (''Missing required field: '' @ f))"
  using missing_field_first [OF assms(2,3), of post] assms(1)
  by (simp add: parseCallbackData_def)

subsection \<open>Evaluation of the decoding at concrete payloads\<close>










subsection \<open>Percent-encoding, the order identifier and the request parameters\<close>

lemma split_nonempty: "split sep s \<noteq> []"
  by (induction s) (auto split: list.splits)

lemma concat_split: "concat (split sep s) = filter (\<lambda>c. c \<noteq> sep) s"
  by (induction s) (auto split: list.splits simp: split_nonempty)

lemma is_uuid_filter:
  assumes "is_uuid u"
  shows "length (filter (\<lambda>c. c \<noteq> 0x2D) u) = 32 \<and> list_all is_hex (filter (\<lambda>c. c \<noteq> 0x2D) u)"
proof -
  obtain a b c d e where s: "split 0x2D u = [a, b, c, d, e]"
    and l: "length a = 8" "length b = 4" "length c = 4" "length d = 4" "length e = 12"
    and h: "list_all is_hex (a @ b @ c @ d @ e)"
    using assms unfolding is_uuid_def
    by (auto split: list.splits)
  have "filter (\<lambda>c. c \<noteq> 0x2D) u = a @ b @ c @ d @ e"
    using concat_split [of "0x2D" u] s by simp
  then show ?thesis
    using l h by simp
qed

lemma is_hex_alphanumeric: "is_hex c \<Longrightarrow> is_alphanumeric c"
  by (auto simp: is_hex_def is_alphanumeric_def)

lemma list_all_take: "list_all P xs \<Longrightarrow> list_all P (take n xs)"
  by (auto simp: list_all_iff dest: in_set_takeD)

lemma shortUuid:
  assumes "is_uuid u"
  shows "length (take 24 (filter (\<lambda>c. c \<noteq> 0x2D) u)) = 24"
    and "list_all is_hex (take 24 (filter (\<lambda>c. c \<noteq> 0x2D) u))"
  using is_uuid_filter [OF assms] by (simp_all add: list_all_take)

lemma generateOrderId_no_truncation:
  assumes "is_uuid u"
  shows "generateOrderId u tx =
     take 8 (filter is_alphanumeric tx) @ take 24 (filter (\<lambda>c. c \<noteq> 0x2D) u)"
  using shortUuid(1) [OF assms] by (simp add: generateOrderId_def Let_def)

lemma generateOrderId_alphanumeric:
  assumes "is_uuid u"
  shows "list_all is_alphanumeric (generateOrderId u tx)"
proof -
  have "list_all is_alphanumeric (take 24 (filter (\<lambda>c. c \<noteq> 0x2D) u))"
    using shortUuid(2) [OF assms] by (auto simp: list_all_iff is_hex_alphanumeric)
  moreover have "list_all is_alphanumeric (take 8 (filter is_alphanumeric tx))"
    by (rule list_all_take) (simp add: list_all_iff)
  ultimately show ?thesis
    by (simp add: generateOrderId_no_truncation [OF assms])
qed

lemma alphanumeric_lone: "is_alphanumeric c \<Longrightarrow> lone c = Some (unat c)"
  by (auto simp: is_alphanumeric_def lone_def is_high_surrogate_def is_low_surrogate_def)

lemma alphanumeric_not_high: "is_alphanumeric c \<Longrightarrow> \<not> is_high_surrogate c"
  by (auto simp: is_alphanumeric_def is_high_surrogate_def)

lemma code_points_alphanumeric:
  "list_all is_alphanumeric s \<Longrightarrow> code_points s = map (\<lambda>c. Some (unat c)) s"
  by (induction s rule: code_points.induct)
    (simp_all add: alphanumeric_lone alphanumeric_not_high)

lemma those_map_Some: "those (map (\<lambda>x. Some (f x)) xs) = Some (map f xs)"
  by (induction xs) simp_all

lemma encode_alphanumeric: "is_alphanumeric c \<Longrightarrow> encode_code_point (unat c) = [c]"
  by (auto simp: is_alphanumeric_def encode_code_point_def uri_unescaped_def)

lemma encodeURIComponent_alphanumeric:
  assumes "list_all is_alphanumeric s"
  shows "encodeURIComponent s = Some s"
proof -
  have "concat (map (encode_code_point \<circ> unat) s) = s"
    using assms by (induction s) (simp_all add: encode_alphanumeric)
  then show ?thesis
    by (simp add: encodeURIComponent_def code_points_alphanumeric [OF assms] those_map_Some)
qed

lemma createPaymentRequest_unfold:
  "createPaymentRequest P client uuid options =
     (case encodeParams P (request_params client (generateOrderId uuid (transactionId options))
             options) of
        Inl e \<Rightarrow> Inl e
      | Inr q \<Rightarrow> Inr \<lparr>redirectUrl = getPaymentUrl (toUrlSafeBase64 q)
            (generateSignature P (toUrlSafeBase64 q) (password (config client))),
          orderId = generateOrderId uuid (transactionId options)\<rparr>)"
  by (simp add: createPaymentRequest_def buildPaymentUrl_def buildRequest_def Let_def
      split: sum.splits)

lemma those_None_iff: "those xs = None \<longleftrightarrow> \<not> list_all (\<lambda>x. x \<noteq> None) xs"
  by (induction xs) (auto split: option.splits)

lemma those_Some_iff: "those (map f xs) = Some ys \<longleftrightarrow> list_all2 (\<lambda>x y. f x = Some y) xs ys"
proof (induction xs arbitrary: ys)
  case Nil
  then show ?case by auto
next
  case (Cons x xs)
  then show ?case
    by (cases ys) (auto split: option.splits)
qed

lemma encodeURIComponent_None_iff: "encodeURIComponent s = None \<longleftrightarrow> \<not> well_formed s"
  by (simp add: encodeURIComponent_def well_formed_def those_None_iff)

lemma encodeURIComponent_well_formed:
  "well_formed s \<Longrightarrow> \<exists>e. encodeURIComponent s = Some e"
  using encodeURIComponent_None_iff by fastforce

lemma encodeURIComponent_Some_well_formed: "encodeURIComponent s = Some e \<Longrightarrow> well_formed s"
  by (metis encodeURIComponent_None_iff option.distinct(1))

lemma encode_entry_None_iff: "encode_entry P entry = None \<longleftrightarrow> \<not> encodable P entry"
  by (auto simp: encode_entry_def encodable_def encodeURIComponent_None_iff
      dest: encodeURIComponent_Some_well_formed split: option.splits)

lemma encodeParams_Inl_iff:
  "encodeParams P params = Inl URIError \<longleftrightarrow> \<not> list_all (encodable P) (filter kept params)"
proof -
  have "those (map (encode_entry P) (filter kept params)) = None \<longleftrightarrow>
      \<not> list_all (encodable P) (filter kept params)"
    by (simp add: those_None_iff list_all_iff encode_entry_None_iff)
  then show ?thesis
    by (auto simp: encodeParams_def split: option.splits)
qed

lemma encode_entry_Some_iff: "encode_entry P entry = Some e \<longleftrightarrow> encoded_entry P entry e"
  by (auto simp: encode_entry_def encoded_entry_def split: option.splits)

lemma encodeParams_Inr_iff:
  "encodeParams P params = Inr out \<longleftrightarrow>
     (\<exists>es. list_all2 (encoded_entry P) (filter kept params) es \<and> out = join (js ''&'') es)"
proof -
  have *: "those (map (encode_entry P) (filter kept params)) = Some es \<longleftrightarrow>
      list_all2 (encoded_entry P) (filter kept params) es" for es
    unfolding those_Some_iff by (simp add: encode_entry_Some_iff)
  show ?thesis
  proof (cases "those (map (encode_entry P) (filter kept params))")
    case None
    then have "\<not> (\<exists>es. list_all2 (encoded_entry P) (filter kept params) es)"
      using * by simp
    with None show ?thesis
      by (simp add: encodeParams_def)
  next
    case (Some es0)
    then have "list_all2 (encoded_entry P) (filter kept params) es \<longleftrightarrow> es = es0" for es
      using * [of es] by auto
    with Some show ?thesis
      by (auto simp: encodeParams_def)
  qed
qed

lemma unat_word16: "n < 65536 \<Longrightarrow> unat (of_nat n :: 16 word) = n"
  by (simp add: unat_of_nat)

lemma unat_hex_upper:
  assumes "d < 16"
  shows "uri_unescaped (unat (hex_upper d))"
proof -
  have "unat (hex_upper d) = (if d < 10 then 48 + d else 55 + d)"
    using assms unfolding hex_upper_def by (simp only: unat_word16 split: if_splits) simp
  then show ?thesis
    using assms by (auto simp: uri_unescaped_def)
qed

lemma percent_chars: "list_all encoded_char (percent b)"
proof -
  have "unat b div 16 < 16"
    using unsigned_less [of b, where ?'a = nat] by simp
  then show ?thesis
    by (simp add: percent_def encoded_char_def unat_hex_upper)
qed

lemma unescaped_small: "uri_unescaped n \<Longrightarrow> n < 128"
  by (auto simp: uri_unescaped_def)

lemma unat_of_nat_unescaped: "uri_unescaped n \<Longrightarrow> unat (of_nat n :: 16 word) = n"
  using unescaped_small [of n] by (simp add: unat_word16)

lemma encode_code_point_chars: "list_all encoded_char (encode_code_point n)"
proof (cases "uri_unescaped n")
  case True
  then show ?thesis
    by (simp add: encode_code_point_def encoded_char_def unat_of_nat_unescaped)
next
  case False
  then show ?thesis
    using percent_chars by (auto simp: encode_code_point_def list_all_iff)
qed

lemma encodeURIComponent_chars:
  "encodeURIComponent s = Some e \<Longrightarrow> list_all encoded_char e"
  using encode_code_point_chars by (auto simp: encodeURIComponent_def list_all_iff)

lemma encoded_char_not_sep: "encoded_char c \<Longrightarrow> c \<noteq> 0x26 \<and> c \<noteq> 0x3D"
  by (auto simp: encoded_char_def uri_unescaped_def)

lemma encodeURIComponent_no_sep:
  "encodeURIComponent s = Some e \<Longrightarrow> 0x26 \<notin> set e \<and> 0x3D \<notin> set e"
  using encodeURIComponent_chars [of s e] encoded_char_not_sep
  by (auto simp: list_all_iff)

lemma split_no_sep: "sep \<notin> set s \<Longrightarrow> split sep s = [s]"
  by (induction s) auto

lemma split_append:
  "sep \<notin> set p \<Longrightarrow> split sep (p @ sep # s) = p # split sep s"
  by (induction p) auto

lemma split_join:
  "es \<noteq> [] \<Longrightarrow> \<forall>e \<in> set es. sep \<notin> set e \<Longrightarrow> split sep (join [sep] es) = es"
proof (induction "[sep]" es rule: join.induct)
  case 1
  then show ?case by simp
next
  case (2 p)
  then show ?case by (simp add: split_no_sep)
next
  case (3 p q ps)
  then show ?case by (simp add: split_append)
qed

lemma js_amp: "js ''&'' = [0x26]" and js_eq: "js ''='' = [0x3D]"
  by (simp_all add: js_def)

lemma encoded_entry_no_amp: "encoded_entry P entry e \<Longrightarrow> 0x26 \<notin> set e"
  by (auto simp: encoded_entry_def js_eq dest: encodeURIComponent_no_sep)

lemma encoded_entry_split:
  "encoded_entry P entry e \<Longrightarrow>
     \<exists>k v. split 0x3D e = [k, v] \<and> encodeURIComponent (fst entry) = Some k \<and>
       encodeURIComponent (to_String P (snd entry)) = Some v"
proof -
  assume "encoded_entry P entry e"
  then obtain k v where kv: "encodeURIComponent (fst entry) = Some k"
      "encodeURIComponent (to_String P (snd entry)) = Some v" "e = k @ 0x3D # v"
    by (auto simp: encoded_entry_def js_eq)
  have "0x3D \<notin> set k" "0x3D \<notin> set v"
    using kv(1,2) encodeURIComponent_no_sep by blast+
  then have "split 0x3D e = [k, v]"
    by (simp add: kv(3) split_append split_no_sep)
  then show ?thesis
    using kv(1,2) by blast
qed

lemma code_points_below_surrogates:
  "list_all (\<lambda>c. unat c < 0xD800) s \<Longrightarrow> code_points s = map (\<lambda>c. Some (unat c)) s"
  by (induction s rule: code_points.induct)
    (simp_all add: lone_def is_high_surrogate_def is_low_surrogate_def)

lemma well_formed_below_surrogates:
  "list_all (\<lambda>c. unat c < 0xD800) s \<Longrightarrow> well_formed s"
  by (simp add: well_formed_def code_points_below_surrogates list_all_iff)

lemma well_formed_js: "well_formed (js s)"
proof (rule well_formed_below_surrogates)
  have "unat (of_char c :: 16 word) < 0xD800" for c
    unfolding unat_of_char by (rule less_trans [of _ 256]) simp_all
  then show "list_all (\<lambda>c. unat c < 0xD800) (js s)"
    by (simp add: js_def list_all_iff)
qed

lemma well_formed_alphanumeric: "list_all is_alphanumeric s \<Longrightarrow> well_formed s"
  by (rule well_formed_below_surrogates) (auto simp: list_all_iff is_alphanumeric_def)

lemma encoded_char_below: "encoded_char c \<Longrightarrow> unat c < 0xD800"
  unfolding encoded_char_def using unescaped_small [of "unat c"] by auto

lemma well_formed_encoded: "list_all encoded_char s \<Longrightarrow> well_formed s"
  by (rule well_formed_below_surrogates) (auto simp: list_all_iff encoded_char_below)

lemma decimal_digits: "list_all is_digit (decimal n)"
proof (induction n rule: decimal.induct)
  case (1 n)
  have d: "is_digit (of_nat (48 + k))" if "k < 10" for k
    using that by (simp only: is_digit_def unat_word16) simp
  show ?case
  proof (cases "n < 10")
    case True
    then show ?thesis
      using d [of n] by (subst decimal.simps) (simp del: of_nat_add)
  next
    case False
    then show ?thesis
      using 1 d [of "n mod 10"] by (subst decimal.simps) (simp del: of_nat_add)
  qed
qed

lemma well_formed_decimal: "well_formed (decimal n)"
  using decimal_digits [of n]
  by (intro well_formed_below_surrogates) (auto simp: list_all_iff is_digit_def)

lemma well_formed_append_ascii:
  "list_all (\<lambda>c. unat c < 0xD800) s \<Longrightarrow> list_all (\<lambda>c. unat c < 0xD800) t \<Longrightarrow>
     well_formed (s @ t)"
  by (rule well_formed_below_surrogates) simp

lemma well_formed_number_toString:
  assumes "\<And>q. well_formed (g q)"
  shows "well_formed (number_toString g x)"
proof (cases x)
  case (Num q)
  have "list_all (\<lambda>c. unat c < 0xD800) (decimal n)" for n
    using decimal_digits [of n] by (auto simp: list_all_iff is_digit_def)
  then have "well_formed (js ''-'' @ decimal n)" for n
    by (intro well_formed_append_ascii) (simp_all add: js_def)
  then show ?thesis
    using assms Num by (simp add: number_toString_def well_formed_decimal)
qed (simp_all add: number_toString_def well_formed_js)

lemma lone_Some: "lone c = Some n \<Longrightarrow> n = unat c"
  by (simp add: lone_def split: if_splits)

lemma those_Cons_Some:
  "those (x # xs) = Some ns \<Longrightarrow> \<exists>n ms. x = Some n \<and> those xs = Some ms \<and> ns = n # ms"
  by (cases x) (auto split: option.splits)

lemma those_unescaped:
  "those (code_points s) = Some ns \<Longrightarrow> list_all uri_unescaped ns \<Longrightarrow> map of_nat ns = s"
proof (induction s arbitrary: ns rule: code_points.induct)
  case 1
  then show ?case by simp
next
  case (2 c)
  from 2(1) obtain n where "lone c = Some n" "ns = [n]"
    using those_Cons_Some [of "lone c" "[]" ns] by auto
  then show ?case
    using lone_Some [of c n] by simp
next
  case (3 c d cs)
  show ?case
  proof (cases "is_high_surrogate c \<and> is_low_surrogate d")
    case True
    then have "code_points (c # d # cs) =
        Some (0x10000 + (unat c - 0xD800) * 0x400 + (unat d - 0xDC00)) # code_points cs"
      by simp
    then have "those (Some (0x10000 + (unat c - 0xD800) * 0x400 + (unat d - 0xDC00))
        # code_points cs) = Some ns"
      using 3(3) by (simp only:)
    then obtain ms where "ns = (0x10000 + (unat c - 0xD800) * 0x400 + (unat d - 0xDC00)) # ms"
      using those_Cons_Some by blast
    then have "uri_unescaped (0x10000 + (unat c - 0xD800) * 0x400 + (unat d - 0xDC00))"
      using 3(4) by simp
    then have "0x10000 + (unat c - 0xD800) * 0x400 + (unat d - 0xDC00) < (128::nat)"
      by (rule unescaped_small)
    then show ?thesis by simp
  next
    case False
    then have "code_points (c # d # cs) = lone c # code_points (d # cs)"
      by (simp only: code_points.simps if_False)
    then have "those (lone c # code_points (d # cs)) = Some ns"
      using 3(3) by (simp only:)
    then obtain n ms where ms: "lone c = Some n" "those (code_points (d # cs)) = Some ms"
        "ns = n # ms"
      using those_Cons_Some by blast
    have "list_all uri_unescaped ms"
      using 3(4) ms(3) by simp
    then have "map of_nat ms = d # cs"
      using 3(2) [OF False ms(2)] by simp
    then show ?thesis
      using ms(3) lone_Some [OF ms(1)] by simp
  qed
qed

lemma percent_head: "\<exists>r. percent b = 0x25 # r"
  by (simp add: percent_def)

lemma utf8_of_code_point_nonempty: "utf8_of_code_point n \<noteq> []"
  by (simp add: utf8_of_code_point_def)

lemma encode_code_point_no_percent:
  "0x25 \<notin> set (encode_code_point n) \<Longrightarrow> uri_unescaped n"
proof (rule ccontr)
  assume a: "0x25 \<notin> set (encode_code_point n)" "\<not> uri_unescaped n"
  obtain b bs where "utf8_of_code_point n = b # bs"
    using utf8_of_code_point_nonempty by (cases "utf8_of_code_point n") auto
  then have "0x25 \<in> set (encode_code_point n)"
    using a(2) percent_head [of b] by (auto simp: encode_code_point_def)
  then show False using a(1) by simp
qed

lemma encodeURIComponent_no_percent:
  assumes "encodeURIComponent s = Some e" "0x25 \<notin> set e"
  shows "e = s"
proof -
  obtain ns where ns: "those (code_points s) = Some ns" "e = concat (map encode_code_point ns)"
    using assms(1) by (auto simp: encodeURIComponent_def)
  have u: "list_all uri_unescaped ns"
    using assms(2) ns(2) encode_code_point_no_percent by (auto simp: list_all_iff)
  then have "concat (map encode_code_point ns) = map of_nat ns"
    by (induction ns) (simp_all add: encode_code_point_def)
  then show ?thesis
    using those_unescaped [OF ns(1) u] ns(2) by simp
qed

lemma encodable_Str: "well_formed s \<Longrightarrow> encodable P (js key, Str s)"
  by (simp add: encodable_def to_String_def well_formed_js)

lemma encodable_Number:
  "(\<And>q. well_formed (number_digits P q)) \<Longrightarrow> encodable P (js key, Number x)"
  by (simp add: encodable_def to_String_def well_formed_js well_formed_number_toString)

lemma encodable_add_optional:
  "well_formed_option v \<Longrightarrow> list_all (encodable P) params \<Longrightarrow>
     list_all (encodable P) (add_optional key v params)"
  by (auto simp: add_optional_def well_formed_option_def encodable_Str split: option.splits)

lemma request_params_encodable:
  assumes "well_formed_request P client options" "well_formed order_id"
  shows "list_all (encodable P) (request_params client order_id options)"
proof -
  have n: "encodable P (js key, Number x)" for key x
    using assms(1) by (intro encodable_Number) (simp add: well_formed_request_def)
  have "list_all (encodable P)
     [(js ''projectid'', Str (projectId (config client))),
      (js ''orderid'', Str order_id),
      (js ''accepturl'', Str (acceptUrl (urls options))),
      (js ''cancelurl'', Str (cancelUrl (urls options))),
      (js ''callbackurl'', Str (callbackUrl (urls options))),
      (js ''version'', Str PAYSERA_API_VERSION),
      (js ''amount'', Number (toMinorUnits (CreatePaymentOptions.amount options))),
      (js ''currency'', Str (CreatePaymentOptions.currency options)),
      (js ''test'', Number (if testMode (config client) then Num 1 else Num 0))]"
    using assms n
    by (simp add: well_formed_request_def encodable_Str PAYSERA_API_VERSION_def well_formed_js)
  then show ?thesis
    using assms(1) unfolding request_params_def well_formed_request_def
    by (intro encodable_add_optional) simp_all
qed

lemma list_all_filter: "list_all P xs \<Longrightarrow> list_all P (filter Q xs)"
  by (simp add: list_all_iff)

lemma createPaymentRequest_returns:
  assumes "is_uuid uuid" "well_formed_request P client options"
  shows "\<exists>r. createPaymentRequest P client uuid options = Inr r"
proof -
  let ?params = "request_params client (generateOrderId uuid (transactionId options)) options"
  have "well_formed (generateOrderId uuid (transactionId options))"
    using generateOrderId_alphanumeric [OF assms(1)] by (rule well_formed_alphanumeric)
  then have "list_all (encodable P) (filter kept ?params)"
    using request_params_encodable [OF assms(2)] by (intro list_all_filter)
  then have "encodeParams P ?params \<noteq> Inl URIError"
    using encodeParams_Inl_iff by blast
  then obtain q where "encodeParams P ?params = Inr q"
    using encodeParams_error by (cases "encodeParams P ?params") auto
  then show ?thesis
    by (simp add: createPaymentRequest_unfold)
qed

lemma createPaymentRequest_orderId:
  "createPaymentRequest P client uuid options = Inr r \<Longrightarrow>
     orderId r = generateOrderId uuid (transactionId options)"
  by (auto simp: createPaymentRequest_unfold split: sum.splits)

lemma alnum_orderid: "list_all is_alphanumeric (js ''orderid'')"
  by (simp add: js_def is_alphanumeric_def)

lemma is_uuid_example: "is_uuid (js ''0190a6a8-7b1c-7def-8abc-0123456789ab'')"
  by (simp add: is_uuid_def js_def is_hex_def)

lemma generateOrderId_example:
  "generateOrderId (js ''0190a6a8-7b1c-7def-8abc-0123456789ab'') (js ''TX-001'')
     = js ''TX0010190a6a87b1c7def8abc0123''"
  by (simp add: generateOrderId_def js_def is_alphanumeric_def)

lemma prefix_key:
  fixes x :: "16 word"
  assumes "prefix (a @ [x]) (b @ x # c)" "x \<notin> set a" "x \<notin> set b"
  shows "a = b"
proof -
  obtain r where r: "b @ x # c = (a @ [x]) @ r"
    using assms(1) by (auto simp: prefix_def)
  then have "split x (b @ x # c) = split x (a @ x # r)"
    by simp
  then have "b # split x c = a # split x r"
    using assms(2,3) by (simp add: split_append)
  then show ?thesis by simp
qed

lemma unescaped_key:
  fixes key :: jsstring
  assumes "list_all (\<lambda>c. uri_unescaped (unat c)) key"
  shows "0x3D \<notin> set key" "0x25 \<notin> set key"
proof -
  have "c \<noteq> 0x3D \<and> c \<noteq> 0x25" if "uri_unescaped (unat c)" for c :: "16 word"
    using that by (auto simp: uri_unescaped_def)
  then have "\<forall>c \<in> set key. c \<noteq> 0x3D \<and> c \<noteq> 0x25"
    using assms unfolding list_all_iff by blast
  then show "0x3D \<notin> set key" "0x25 \<notin> set key"
    by blast+
qed

lemma encoded_entry_key:
  assumes "encoded_entry P entry e" "prefix (key @ js ''='') e"
    "list_all (\<lambda>c. uri_unescaped (unat c)) key"
  shows "fst entry = key"
proof -
  obtain k v where kv: "encodeURIComponent (fst entry) = Some k" "e = k @ 0x3D # v"
    using assms(1) by (auto simp: encoded_entry_def js_eq)
  have "0x3D \<notin> set k"
    using kv(1) encodeURIComponent_no_sep by blast
  then have "key = k"
    using assms(2) unescaped_key(1) [OF assms(3)] prefix_key [of key "0x3D" k v]
    by (simp add: kv(2) js_eq)
  then show ?thesis
    using kv(1) unescaped_key(2) [OF assms(3)] encodeURIComponent_no_percent by metis
qed

lemma encodeParams_components:
  assumes "list_all2 (encoded_entry P) (filter kept params) es"
  shows "split 0x26 (join (js ''&'') es) = (if es = [] then [[]] else es)"
proof (cases "es = []")
  case True
  then show ?thesis by simp
next
  case False
  have "\<forall>e \<in> set es. 0x26 \<notin> set e"
    using assms encoded_entry_no_amp
    by (metis in_set_conv_nth list_all2_conv_all_nth)
  then show ?thesis
    using False split_join [of es "0x26"] by (simp add: js_amp)
qed

lemma encodeParams_key_absent:
  assumes "encodeParams P params = Inr out"
    "list_all (\<lambda>c. uri_unescaped (unat c)) key"
    "key \<notin> fst ` set (filter kept params)"
    "e \<in> set (split 0x26 out)"
  shows "\<not> prefix (key @ js ''='') e"
proof
  assume p: "prefix (key @ js ''='') e"
  obtain es where es: "list_all2 (encoded_entry P) (filter kept params) es"
      "out = join (js ''&'') es"
    using assms(1) encodeParams_Inr_iff by blast
  have "e \<in> set es"
    using assms(4) p unfolding es(2) encodeParams_components [OF es(1)]
    by (auto simp: js_eq split: if_splits)
  then obtain entry where "entry \<in> set (filter kept params)" "encoded_entry P entry e"
    using es(1) by (metis in_set_conv_nth list_all2_conv_all_nth)
  then show False
    using encoded_entry_key [OF _ p assms(2)] assms(3) by (metis imageI)
qed

lemma add_optional_absent:
  "k \<notin> fst ` set params \<Longrightarrow> k \<noteq> js key \<or> v = None \<or> v = Some [] \<Longrightarrow>
     k \<notin> fst ` set (add_optional key v params)"
  by (auto simp: add_optional_def split: option.splits)

lemma request_params_absent:
  assumes "k \<notin> js ` {''projectid'', ''orderid'', ''accepturl'', ''cancelurl'', ''callbackurl'',
      ''version'', ''amount'', ''currency'', ''test''}"
    "k \<noteq> js ''p_email'' \<or> customerEmail options = None \<or> customerEmail options = Some []"
    "k \<noteq> js ''p_firstname'' \<or> customerFirstName options = None
       \<or> customerFirstName options = Some []"
    "k \<noteq> js ''p_lastname'' \<or> customerLastName options = None
       \<or> customerLastName options = Some []"
    "k \<noteq> js ''paytext'' \<or> paymentDescription options = None
       \<or> paymentDescription options = Some []"
    "k \<noteq> js ''lang'' \<or> language options = None \<or> language options = Some []"
  shows "k \<notin> fst ` set (request_params client order_id options)"
  unfolding request_params_def
  apply (intro add_optional_absent assms(2-6))
  using assms(1) apply simp
  done

lemma request_params_unset:
  "customerEmail options = None \<or> customerEmail options = Some [] \<Longrightarrow>
     js ''p_email'' \<notin> fst ` set (request_params client order_id options)"
  "customerFirstName options = None \<or> customerFirstName options = Some [] \<Longrightarrow>
     js ''p_firstname'' \<notin> fst ` set (request_params client order_id options)"
  "customerLastName options = None \<or> customerLastName options = Some [] \<Longrightarrow>
     js ''p_lastname'' \<notin> fst ` set (request_params client order_id options)"
  "paymentDescription options = None \<or> paymentDescription options = Some [] \<Longrightarrow>
     js ''paytext'' \<notin> fst ` set (request_params client order_id options)"
  "language options = None \<or> language options = Some [] \<Longrightarrow>
     js ''lang'' \<notin> fst ` set (request_params client order_id options)"
  by (rule request_params_absent; simp)+

lemma not_in_filter: "k \<notin> fst ` set params \<Longrightarrow> k \<notin> fst ` set (filter Q params)"
  by auto

lemma unreserved_js_keys:
  "list_all (\<lambda>c. uri_unescaped (unat c)) (js ''p_email'')"
  "list_all (\<lambda>c. uri_unescaped (unat c)) (js ''p_firstname'')"
  "list_all (\<lambda>c. uri_unescaped (unat c)) (js ''p_lastname'')"
  "list_all (\<lambda>c. uri_unescaped (unat c)) (js ''paytext'')"
  "list_all (\<lambda>c. uri_unescaped (unat c)) (js ''lang'')"
  by (simp_all add: js_def uri_unescaped_def)

lemma request_unset_absent:
  assumes "encodeParams P (request_params client order_id options) = Inr out"
    "e \<in> set (split 0x26 out)"
  shows
    "customerEmail options = None \<or> customerEmail options = Some [] \<Longrightarrow>
       \<not> prefix (js ''p_email'' @ js ''='') e"
    "customerFirstName options = None \<or> customerFirstName options = Some [] \<Longrightarrow>
       \<not> prefix (js ''p_firstname'' @ js ''='') e"
    "customerLastName options = None \<or> customerLastName options = Some [] \<Longrightarrow>
       \<not> prefix (js ''p_lastname'' @ js ''='') e"
    "paymentDescription options = None \<or> paymentDescription options = Some [] \<Longrightarrow>
       \<not> prefix (js ''paytext'' @ js ''='') e"
    "language options = None \<or> language options = Some [] \<Longrightarrow>
       \<not> prefix (js ''lang'' @ js ''='') e"
  using encodeParams_key_absent [OF assms(1) _ not_in_filter assms(2)]
    request_params_unset [of options client order_id] unreserved_js_keys
  by blast+

lemma encodeParams_emits:
  assumes "list_all (encodable P) (filter kept params)"
  shows "\<exists>es. encodeParams P params = Inr (join (js ''&'') es) \<and>
            list_all2 (encoded_entry P) (filter kept params) es \<and>
            split 0x26 (join (js ''&'') es) = (if es = [] then [[]] else es)"
proof -
  have "encodeParams P params \<noteq> Inl URIError"
    using assms encodeParams_Inl_iff by blast
  then obtain out where "encodeParams P params = Inr out"
    using encodeParams_error by (cases "encodeParams P params") auto
  then obtain es where "list_all2 (encoded_entry P) (filter kept params) es"
      "encodeParams P params = Inr (join (js ''&'') es)"
    using encodeParams_Inr_iff by blast
  then show ?thesis
    using encodeParams_components by blast
qed

lemmas eval_encode = encodeURIComponent_def js_def lone_def is_high_surrogate_def
  is_low_surrogate_def encode_code_point_def uri_unescaped_def percent_def hex_upper_def
  utf8_of_code_point_def

lemma encodeParams_example:
  "encodeParams
     \<lparr>md5_hex = (\<lambda>s. js ''0123456789abcdef0123456789abcdef''), toLowerCase = (\<lambda>s. s),
      number_digits = (\<lambda>q. [])\<rparr>
     [(js ''projectid'', Str (js ''123'')), (js ''orderid'', Str (js ''order&special=test'')),
      (js ''amount'', Number (Num 100)), (js ''p_email'', Undefined),
      (js ''p_firstname'', Str [])]
   = Inr (js ''projectid=123&orderid=order%26special%3Dtest&amount=100'')"
  by (simp add: encodeParams_def kept_def encode_entry_def to_String_def number_toString_def
      decimal.simps eval_encode)

lemma add_optional_member: "x \<in> set params \<Longrightarrow> x \<in> set (add_optional key v params)"
  by (auto simp: add_optional_def split: option.splits)

lemma request_params_orderid:
  "(js ''orderid'', Str order_id) \<in> set (request_params client order_id options)"
  unfolding request_params_def
  by (rule add_optional_member)+ simp

lemma list_all2_member:
  "list_all2 R xs ys \<Longrightarrow> x \<in> set xs \<Longrightarrow> \<exists>y \<in> set ys. R x y"
  by (induction rule: list_all2_induct) auto

lemma orderid_on_wire:
  assumes "is_uuid uuid"
    "encodeParams P (request_params client (generateOrderId uuid tx) options) = Inr q"
  shows "js ''orderid'' @ js ''='' @ generateOrderId uuid tx \<in> set (split 0x26 q)"
proof -
  define oid where "oid = generateOrderId uuid tx"
  define params where "params = request_params client oid options"
  have "length oid \<noteq> 0"
    unfolding oid_def generateOrderId_no_truncation [OF assms(1)]
    using shortUuid(1) [OF assms(1)] by simp
  then have "kept (js ''orderid'', Str oid)"
    by (auto simp: kept_def)
  then have m: "(js ''orderid'', Str oid) \<in> set (filter kept params)"
    using request_params_orderid [of oid client options] by (simp add: params_def)
  obtain es where es: "list_all2 (encoded_entry P) (filter kept params) es"
      "q = join (js ''&'') es"
    using assms(2) encodeParams_Inr_iff unfolding oid_def [symmetric] params_def [symmetric]
    by blast
  obtain e where e: "e \<in> set es" "encoded_entry P (js ''orderid'', Str oid) e"
    using list_all2_member [OF es(1) m] by blast
  have o: "encodeURIComponent oid = Some oid"
    unfolding oid_def
    by (rule encodeURIComponent_alphanumeric [OF generateOrderId_alphanumeric [OF assms(1)]])
  obtain k v where kv: "encodeURIComponent (js ''orderid'') = Some k"
      "encodeURIComponent oid = Some v" "e = k @ js ''='' @ v"
    using e(2) by (auto simp: encoded_entry_def to_String_def)
  have "k = js ''orderid''" "v = oid"
    using kv(1,2) o encodeURIComponent_alphanumeric [OF alnum_orderid] by simp_all
  then have "e = js ''orderid'' @ js ''='' @ oid"
    using kv(3) by simp
  moreover have "es \<noteq> []"
    using e(1) by auto
  then have "split 0x26 q = es"
    unfolding es(2) encodeParams_components [OF es(1)] by simp
  ultimately show ?thesis
    using e(1) by (simp add: oid_def)
qed

lemma createPaymentRequest_returns_orderId:
  assumes "is_uuid uuid" "well_formed_request P client options"
  shows "\<exists>r. createPaymentRequest P client uuid options = Inr r \<and>
    orderId r = generateOrderId uuid (transactionId options)"
  using createPaymentRequest_returns [OF assms] createPaymentRequest_orderId by blast

subsection \<open>The pairs of a query string\<close>


lemma map_add_rev_Cons:
  "m(k \<mapsto> v) ++ map_of (rev es) = m ++ map_of (rev ((k, v) # es))"
  by simp









subsection \<open>The amount of a request\<close>

lemma request_params_amount:
  "(js ''amount'', Number (toMinorUnits (CreatePaymentOptions.amount options)))
     \<in> set (request_params client order_id options)"
  unfolding request_params_def
  by (rule add_optional_member)+ simp

lemma alnum_amount: "list_all is_alphanumeric (js ''amount'')"
  by (simp add: js_def is_alphanumeric_def)

lemma amount_on_wire:
  assumes "encodeParams P (request_params client order_id options) = Inr q"
  shows "\<exists>v. encodeURIComponent (number_toString (number_digits P)
            (toMinorUnits (CreatePaymentOptions.amount options))) = Some v \<and>
          js ''amount'' @ js ''='' @ v \<in> set (split 0x26 q)"
proof -
  define x where "x = toMinorUnits (CreatePaymentOptions.amount options)"
  define params where "params = request_params client order_id options"
  have "kept (js ''amount'', Number x)"
    by (simp add: kept_def)
  then have m: "(js ''amount'', Number x) \<in> set (filter kept params)"
    using request_params_amount [of options client order_id] by (simp add: params_def x_def)
  obtain es where es: "list_all2 (encoded_entry P) (filter kept params) es"
      "q = join (js ''&'') es"
    using assms encodeParams_Inr_iff unfolding params_def [symmetric] by blast
  obtain e where e: "e \<in> set es" "encoded_entry P (js ''amount'', Number x) e"
    using list_all2_member [OF es(1) m] by blast
  obtain k v where kv: "encodeURIComponent (js ''amount'') = Some k"
      "encodeURIComponent (number_toString (number_digits P) x) = Some v" "e = k @ js ''='' @ v"
    using e(2) by (auto simp: encoded_entry_def to_String_def)
  have "k = js ''amount''"
    using kv(1) encodeURIComponent_alphanumeric [OF alnum_amount] by simp
  moreover have "es \<noteq> []"
    using e(1) by auto
  then have "split 0x26 q = es"
    unfolding es(2) encodeParams_components [OF es(1)] by simp
  ultimately show ?thesis
    using e(1) kv(2,3) unfolding x_def by auto
qed

lemma toMinorUnits_finite:
  "js_mul (Num a) (Num 100) = Num p \<Longrightarrow> toMinorUnits (Num a) = Num (of_int \<lfloor>p + 1 / 2\<rfloor>)"
  by (simp add: toMinorUnits_def)

lemma Math_round_of_int: "Math_round (Num (of_int n)) = Num (of_int n)"
proof -
  have "\<lfloor>(of_int n :: rat) + 1 / 2\<rfloor> = n"
    by (rule floor_unique) simp_all
  then show ?thesis by simp
qed

lemma toMinorUnits_example: "toMinorUnits (Num (21 / 2)) = Num 1050"
proof -
  have "js_mul (Num (21 / 2)) (Num 100) = Num (of_int 1050)"
    by (simp add: to_double_numeral)
  then show ?thesis
    unfolding toMinorUnits_def using Math_round_of_int [of 1050] by simp
qed

lemma toMinorUnits_overflow: "toMinorUnits (Num (2 ^ 1020)) = Infinity"
proof -
  have "(2::rat) ^ 1020 * 100 = of_int (2 ^ 1020 * 100)"
    by simp
  then have "js_mul (Num (2 ^ 1020)) (Num 100) = to_double (of_int (2 ^ 1020 * 100))"
    by (simp only: js_mul.simps)
  also have "\<dots> = Infinity"
    by (rule to_double_overflow_pos) simp
  finally show ?thesis
    by (simp add: toMinorUnits_def)
qed

lemma decimal_1050: "decimal 1050 = js ''1050''"
  by (simp add: decimal.simps js_def)

lemma number_toString_1050: "number_toString g (Num 1050) = js ''1050''"
  by (simp add: number_toString_def decimal_1050)

lemma encodeURIComponent_digits: "encodeURIComponent (decimal n) = Some (decimal n)"
proof (rule encodeURIComponent_alphanumeric)
  show "list_all is_alphanumeric (decimal n)"
    using decimal_digits [of n] by (auto simp: list_all_iff is_digit_def is_alphanumeric_def)
qed

lemma amount_digits_on_wire:
  assumes "encodeParams P (request_params client order_id options) = Inr q"
    "toMinorUnits (CreatePaymentOptions.amount options) = Num (of_int i)" "0 \<le> i" "i \<le> 2 ^ 53"
  shows "js ''amount'' @ js ''='' @ decimal (nat i) \<in> set (split 0x26 q)"
proof -
  have "(of_int i :: rat) \<le> of_int (2 ^ 53)"
    using assms(4) by (simp only: of_int_le_iff)
  then have "number_toString (number_digits P) (Num (of_int i)) = decimal (nat i)"
    using assms(3) by (simp add: number_toString_def)
  then show ?thesis
    using amount_on_wire [OF assms(1)] assms(2) encodeURIComponent_digits by auto
qed

lemma encodeParams_request_example:
  "encodeParams
     \<lparr>md5_hex = (\<lambda>s. js ''0123456789abcdef0123456789abcdef''), toLowerCase = (\<lambda>s. s),
      number_digits = (\<lambda>q. [])\<rparr>
     (request_params
        \<lparr>config = \<lparr>projectId = js ''12345'', password = js ''secret_password'',
           testMode = True\<rparr>\<rparr>
        (js ''TX0010190a6a87b1c7def8abc0123'')
        \<lparr>transactionId = js ''TX-001'', amount = Num (21 / 2), currency = js ''EUR'',
         urls = \<lparr>acceptUrl = js ''https://example.com/accept'',
           cancelUrl = js ''https://example.com/cancel'',
           callbackUrl = js ''https://example.com/callback''\<rparr>,
         customerEmail = None, customerFirstName = None, customerLastName = None,
         paymentDescription = None, language = None\<rparr>)
   = Inr (js ''projectid=12345&orderid=TX0010190a6a87b1c7def8abc0123&accepturl=https%3A%2F%2Fexample.com%2Faccept&cancelurl=https%3A%2F%2Fexample.com%2Fcancel&callbackurl=https%3A%2F%2Fexample.com%2Fcallback&version=1.6&amount=1050&currency=EUR&test=1'')"
  by (simp add: request_params_def add_optional_def toMinorUnits_example PAYSERA_API_VERSION_def
      encodeParams_def kept_def encode_entry_def to_String_def number_toString_def
      decimal.simps eval_encode)

section \<open>Claims\<close>




text \<open>
  C3, as stated, fails: the amount \<open>12abc\<close> is not a base-10 integer, and a run of 310
  digits is read as an infinity, yet both are accepted.
\<close>

theorem C3_counterexample:
  "\<not> is_base10_integer (js ''12abc'') \<and>
   parseCallbackData [js ''projectid'' \<mapsto> js ''12345'', js ''orderid'' \<mapsto> js ''ORDER-001'',
       js ''amount'' \<mapsto> js ''12abc'', js ''currency'' \<mapsto> js ''EUR'', js ''status'' \<mapsto> js ''1'',
       js ''requestid'' \<mapsto> js ''req123'']
     = Inr \<lparr>projectid = js ''12345'', orderid = js ''ORDER-001'', amount = Num 12,
         currency = js ''EUR'', status = Num 1, requestid = js ''req123'', paytext = None,
         name = None, surename = None, payment = None, country = None, test = None\<rparr> \<and>
   parseCallbackData [js ''projectid'' \<mapsto> js ''12345'', js ''orderid'' \<mapsto> js ''ORDER-001'',
       js ''amount'' \<mapsto> js (CHR ''1'' # replicate 309 CHR ''0''), js ''currency'' \<mapsto> js ''EUR'',
       js ''status'' \<mapsto> js ''1'', js ''requestid'' \<mapsto> js ''req123'']
     = Inr \<lparr>projectid = js ''12345'', orderid = js ''ORDER-001'', amount = Infinity,
         currency = js ''EUR'', status = Num 1, requestid = js ''req123'', paytext = None,
         name = None, surename = None, payment = None, country = None, test = None\<rparr>"
proof -
  let ?m = "[js ''projectid'' \<mapsto> js ''12345'', js ''orderid'' \<mapsto> js ''ORDER-001'',
       js ''amount'' \<mapsto> js ''12abc'', js ''currency'' \<mapsto> js ''EUR'', js ''status'' \<mapsto> js ''1'',
       js ''requestid'' \<mapsto> js ''req123'']"
  let ?n = "[js ''projectid'' \<mapsto> js ''12345'', js ''orderid'' \<mapsto> js ''ORDER-001'',
       js ''amount'' \<mapsto> js (CHR ''1'' # replicate 309 CHR ''0''), js ''currency'' \<mapsto> js ''EUR'',
       js ''status'' \<mapsto> js ''1'', js ''requestid'' \<mapsto> js ''req123'']"
  have "parseCallbackData ?m = Inr \<lparr>projectid = js ''12345'', orderid = js ''ORDER-001'',
         amount = Num 12,
         currency = js ''EUR'', status = Num 1, requestid = js ''req123'', paytext = None,
         name = None, surename = None, payment = None, country = None, test = None\<rparr>"
    using parseCallbackData_present [of ?m "js ''12345''" "js ''ORDER-001''" "js ''12abc''"
        "js ''EUR''" "js ''1''" "js ''req123''"]
    by (simp add: parseInt_12abc parseInt_1)
  moreover have "parseCallbackData ?n = Inr \<lparr>projectid = js ''12345'', orderid = js ''ORDER-001'',
         amount = Infinity,
         currency = js ''EUR'', status = Num 1, requestid = js ''req123'', paytext = None,
         name = None, surename = None, payment = None, country = None, test = None\<rparr>"
    using parseCallbackData_present [of ?n "js ''12345''" "js ''ORDER-001''"
        "js (CHR ''1'' # replicate 309 CHR ''0'')" "js ''EUR''" "js ''1''" "js ''req123''"]
    by (simp add: parseInt_overflow parseInt_1)
  ultimately show ?thesis
    using not_integer_12abc by simp
qed

text \<open>
  C3, amended. For every mapping \<open>rawData\<close>, \<open>parseCallbackData\<close> fails with
  \<open>PayseraCallbackDataError\<close> naming the first missing field, the fields being checked in
  the order projectid, orderid, amount, currency, status, requestid. When all six are
  present it fails with the message \<open>Invalid amount value\<close> exactly when \<open>parseInt\<close> of the
  amount is \<open>NaN\<close>, and otherwise with \<open>Invalid status value\<close> exactly when \<open>parseInt\<close> of
  the status is \<open>NaN\<close>; otherwise it succeeds, amount and status being the numbers that
  \<open>parseInt\<close> gives, the optional fields copied, and \<open>test\<close> mapped from \<open>1\<close> to 1, from
  \<open>0\<close> to 0 and from anything else to undefined. \<open>parseInt\<close> gives a number exactly when
  the string, after white space and one optional sign, starts with a decimal digit; what
  follows the digits is ignored, and the number is an integer or, beyond the range of
  binary64, an infinity.
\<close>

theorem C3_parseCallbackData:
  "required = [''projectid'', ''orderid'', ''amount'', ''currency'', ''status'', ''requestid''] \<and>
   (required = pre @ f # post \<and> (\<forall>g \<in> set pre. rawData (js g) \<noteq> None) \<and> rawData (js f) = None
      \<longrightarrow> parseCallbackData rawData =
            Inl (PayseraCallbackDataError (''Missing required field: '' @ f))) \<and>
   (rawData (js ''projectid'') = Some p \<and> rawData (js ''orderid'') = Some oid \<and>
    rawData (js ''amount'') = Some a \<and> rawData (js ''currency'') = Some c \<and>
    rawData (js ''status'') = Some st \<and> rawData (js ''requestid'') = Some r
      \<longrightarrow> parseCallbackData rawData =
            (if parseInt a = NaN then Inl (PayseraCallbackDataError ''Invalid amount value'')
             else if parseInt st = NaN then Inl (PayseraCallbackDataError ''Invalid status value'')
             else Inr \<lparr>projectid = p, orderid = oid, amount = parseInt a, currency = c,
               status = parseInt st, requestid = r, paytext = rawData (js ''paytext''),
               name = rawData (js ''name''), surename = rawData (js ''surename''),
               payment = rawData (js ''payment''), country = rawData (js ''country''),
               test = (if rawData (js ''test'') = Some (js ''1'') then Some (Num 1)
                       else if rawData (js ''test'') = Some (js ''0'') then Some (Num 0)
                       else None)\<rparr>)) \<and>
   (parseInt s \<noteq> NaN \<longleftrightarrow>
      (\<exists>ws sg d rest. s = ws @ sg @ d # rest \<and> list_all is_whitespace ws \<and>
         (sg = [] \<or> sg = js ''+'' \<or> sg = js ''-'') \<and> is_digit d)) \<and>
   (parseInt s = NaN \<or> parseInt s = Infinity \<or> parseInt s = NegInfinity \<or>
      (\<exists>i. parseInt s = Num (of_int i)))"
  using parseCallbackData_present parseCallbackData_missing parseInt_NaN_iff [of s]
    parseInt_kind [of s]
  by (simp add: required_def)

theorem C3_parseCallbackData_witness:
  "parseCallbackData [js ''projectid'' \<mapsto> js ''12345'', js ''amount'' \<mapsto> js ''1000'',
       js ''currency'' \<mapsto> js ''EUR'', js ''status'' \<mapsto> js ''1'', js ''requestid'' \<mapsto> js ''req123'']
     = Inl (PayseraCallbackDataError ''Missing required field: orderid'') \<and>
   parseCallbackData [js ''projectid'' \<mapsto> js ''12345'', js ''orderid'' \<mapsto> js ''ORDER-001'',
       js ''amount'' \<mapsto> js ''abc'', js ''currency'' \<mapsto> js ''EUR'', js ''status'' \<mapsto> js ''1'',
       js ''requestid'' \<mapsto> js ''req123'']
     = Inl (PayseraCallbackDataError ''Invalid amount value'') \<and>
   parseCallbackData [js ''projectid'' \<mapsto> js ''12345'', js ''orderid'' \<mapsto> js ''ORDER-001'',
       js ''amount'' \<mapsto> js ''1000'', js ''currency'' \<mapsto> js ''EUR'', js ''status'' \<mapsto> js ''1'',
       js ''requestid'' \<mapsto> js ''req123'', js ''test'' \<mapsto> js ''1'']
     = Inr \<lparr>projectid = js ''12345'', orderid = js ''ORDER-001'', amount = Num 1000,
         currency = js ''EUR'', status = Num 1, requestid = js ''req123'', paytext = None,
         name = None, surename = None, payment = None, country = None, test = Some (Num 1)\<rparr>"
  using
    C3_parseCallbackData [of "[''projectid'']" "''orderid''"
      "[''amount'', ''currency'', ''status'', ''requestid'']"
      "[js ''projectid'' \<mapsto> js ''12345'', js ''amount'' \<mapsto> js ''1000'',
       js ''currency'' \<mapsto> js ''EUR'', js ''status'' \<mapsto> js ''1'', js ''requestid'' \<mapsto> js ''req123'']"]
    C3_parseCallbackData [of _ _ _
      "[js ''projectid'' \<mapsto> js ''12345'', js ''orderid'' \<mapsto> js ''ORDER-001'',
       js ''amount'' \<mapsto> js ''abc'', js ''currency'' \<mapsto> js ''EUR'', js ''status'' \<mapsto> js ''1'',
       js ''requestid'' \<mapsto> js ''req123'']"
      "js ''12345''" "js ''ORDER-001''" "js ''abc''" "js ''EUR''" "js ''1''" "js ''req123''"]
    C3_parseCallbackData [of _ _ _
      "[js ''projectid'' \<mapsto> js ''12345'', js ''orderid'' \<mapsto> js ''ORDER-001'',
       js ''amount'' \<mapsto> js ''1000'', js ''currency'' \<mapsto> js ''EUR'', js ''status'' \<mapsto> js ''1'',
       js ''requestid'' \<mapsto> js ''req123'', js ''test'' \<mapsto> js ''1'']"
      "js ''12345''" "js ''ORDER-001''" "js ''1000''" "js ''EUR''" "js ''1''" "js ''req123''"]
  by (simp add: parseInt_1 parseInt_abc parseInt_1000)




text \<open>
  C5. For every callback event \<open>e\<close>, \<open>isPaymentSuccessful e\<close> holds exactly when the
  status of \<open>e\<close> is 1, and \<open>isPaymentPending e\<close> exactly when it is 0 or 2; for status 3
  and for every other integer both are false. Both are total: they are plain functions
  to \<open>bool\<close>, with no error result.
\<close>

theorem C5_status_classification:
  "(isPaymentSuccessful e \<longleftrightarrow> status e = Num 1) \<and>
   (isPaymentPending e \<longleftrightarrow> status e = Num 0 \<or> status e = Num 2) \<and>
   (status e = Num (of_int i) \<and> i \<notin> {0, 1, 2} \<longrightarrow>
      \<not> isPaymentSuccessful e \<and> \<not> isPaymentPending e) \<and>
   (status e = Num 3 \<longrightarrow> \<not> isPaymentSuccessful e \<and> \<not> isPaymentPending e)"
  by (auto simp: isPaymentSuccessful_def isPaymentPending_def SUCCESS_def PENDING_def
      ACCEPTED_NOT_EXECUTED_def)

theorem C5_status_classification_witness:
  "\<not> isPaymentSuccessful \<lparr>projectid = js ''1'', orderid = js ''o'', amount = Num 1000,
      currency = js ''EUR'', status = Num 3, requestid = js ''r'', paytext = None,
      name = None, surename = None, payment = None, country = None, test = None\<rparr> \<and>
   \<not> isPaymentPending \<lparr>projectid = js ''1'', orderid = js ''o'', amount = Num 1000,
      currency = js ''EUR'', status = Num 3, requestid = js ''r'', paytext = None,
      name = None, surename = None, payment = None, country = None, test = None\<rparr>"
  using C5_status_classification [of "\<lparr>projectid = js ''1'', orderid = js ''o'',
      amount = Num 1000, currency = js ''EUR'', status = Num 3, requestid = js ''r'',
      paytext = None, name = None, surename = None, payment = None, country = None,
      test = None\<rparr>" 3]
  by simp

text \<open>
  C6, as stated, fails: a parameter whose value has a surrogate on its own makes
  \<open>encodeURIComponent\<close>, and so \<open>encodeParams\<close>, throw \<open>URIError\<close>; nothing is emitted.
\<close>

theorem C6_counterexample:
  "encodeParams
     \<lparr>md5_hex = (\<lambda>s. js ''0123456789abcdef0123456789abcdef''), toLowerCase = (\<lambda>s. s),
      number_digits = (\<lambda>q. [])\<rparr>
     [(js ''p_email'', Str [0xD800])] = Inl URIError"
  by (simp add: encodeParams_def kept_def encode_entry_def to_String_def eval_encode)

text \<open>
  C6, amended. \<open>encodeParams\<close> throws \<open>URIError\<close> exactly when a kept entry has a key or a
  value string that is not well formed. For every other parameter set it emits the kept
  entries joined by \<open>&\<close>, in the order of the entries, each as \<open>key=value\<close> with
  \<open>encodeURIComponent\<close> applied to the key and to \<open>String(value)\<close>; the parts of the output
  between the \<open>&\<close> are these encoded entries one for one. An entry is kept exactly when
  its value is not \<open>undefined\<close>, \<open>null\<close> or the empty string, so such a field contributes
  nothing: for a key of unreserved characters that no kept entry has, no part of the
  output starts with \<open>key=\<close>. In particular, in the parameters that
  \<open>createPaymentRequest\<close> builds, an optional field that is unset or empty has no part of
  the output starting with its key.
\<close>

theorem C6_encodeParams:
  "(encodeParams P params = Inl URIError \<longleftrightarrow> \<not> list_all (encodable P) (filter kept params)) \<and>
   (list_all (encodable P) (filter kept params) \<longrightarrow>
      (\<exists>es. encodeParams P params = Inr (join (js ''&'') es) \<and>
            list_all2 (encoded_entry P) (filter kept params) es \<and>
            split 0x26 (join (js ''&'') es) = (if es = [] then [[]] else es))) \<and>
   (kept (key, value) \<longleftrightarrow> value \<noteq> Undefined \<and> value \<noteq> Null \<and> value \<noteq> Str []) \<and>
   (encodeParams P params = Inr out \<and> list_all (\<lambda>c. uri_unescaped (unat c)) k \<and>
    k \<notin> fst ` set (filter kept params) \<and> e \<in> set (split 0x26 out)
      \<longrightarrow> \<not> prefix (k @ js ''='') e) \<and>
   (encodeParams P (request_params client order_id options) = Inr out' \<and>
    e' \<in> set (split 0x26 out') \<longrightarrow>
      ((customerEmail options = None \<or> customerEmail options = Some [])
         \<longrightarrow> \<not> prefix (js ''p_email'' @ js ''='') e') \<and>
      ((customerFirstName options = None \<or> customerFirstName options = Some [])
         \<longrightarrow> \<not> prefix (js ''p_firstname'' @ js ''='') e') \<and>
      ((customerLastName options = None \<or> customerLastName options = Some [])
         \<longrightarrow> \<not> prefix (js ''p_lastname'' @ js ''='') e') \<and>
      ((paymentDescription options = None \<or> paymentDescription options = Some [])
         \<longrightarrow> \<not> prefix (js ''paytext'' @ js ''='') e') \<and>
      ((language options = None \<or> language options = Some [])
         \<longrightarrow> \<not> prefix (js ''lang'' @ js ''='') e'))"
proof -
  have a: "encodeParams P params = Inl URIError \<longleftrightarrow>
      \<not> list_all (encodable P) (filter kept params)"
    by (rule encodeParams_Inl_iff)
  have b: "kept (key, value) \<longleftrightarrow> value \<noteq> Undefined \<and> value \<noteq> Null \<and> value \<noteq> Str []"
    by (simp add: kept_def)
  show ?thesis
    using a b encodeParams_emits [of P params] encodeParams_key_absent [of P params out k e]
      request_unset_absent [of P client order_id options out' e']
    by blast
qed

theorem C6_encodeParams_witness:
  "list_all (encodable
     \<lparr>md5_hex = (\<lambda>s. js ''0123456789abcdef0123456789abcdef''), toLowerCase = (\<lambda>s. s),
      number_digits = (\<lambda>q. [])\<rparr>)
     (filter kept
       [(js ''projectid'', Str (js ''123'')), (js ''orderid'', Str (js ''order&special=test'')),
        (js ''amount'', Number (Num 100)), (js ''p_email'', Undefined),
        (js ''p_firstname'', Str [])]) \<and>
   encodeParams
     \<lparr>md5_hex = (\<lambda>s. js ''0123456789abcdef0123456789abcdef''), toLowerCase = (\<lambda>s. s),
      number_digits = (\<lambda>q. [])\<rparr>
     [(js ''projectid'', Str (js ''123'')), (js ''orderid'', Str (js ''order&special=test'')),
      (js ''amount'', Number (Num 100)), (js ''p_email'', Undefined),
      (js ''p_firstname'', Str [])]
   = Inr (js ''projectid=123&orderid=order%26special%3Dtest&amount=100'') \<and>
   \<not> prefix (js ''p_email'' @ js ''='') (js ''projectid=123'') \<and>
   \<not> prefix (js ''p_email'' @ js ''='') (js ''orderid=order%26special%3Dtest'') \<and>
   \<not> prefix (js ''p_email'' @ js ''='') (js ''amount=100'')"
proof -
  let ?P = "\<lparr>md5_hex = (\<lambda>s. js ''0123456789abcdef0123456789abcdef''), toLowerCase = (\<lambda>s. s),
      number_digits = (\<lambda>q. [])\<rparr>"
  let ?params = "[(js ''projectid'', Str (js ''123'')),
      (js ''orderid'', Str (js ''order&special=test'')),
      (js ''amount'', Number (Num 100)), (js ''p_email'', Undefined),
      (js ''p_firstname'', Str [])]"
  let ?out = "js ''projectid=123&orderid=order%26special%3Dtest&amount=100''"
  have k: "js ''p_email'' \<notin> fst ` set (filter kept ?params)"
    by (simp add: kept_def)
  have ne: "encodeParams ?P ?params \<noteq> Inl URIError"
    using encodeParams_example by simp
  have l: "list_all (encodable ?P) (filter kept ?params)"
    using C6_encodeParams [of ?P ?params, THEN conjunct1] ne by blast
  have "\<not> prefix (js ''p_email'' @ js ''='') e" if "e \<in> set (split 0x26 ?out)" for e
    using C6_encodeParams [of ?P ?params _ _ ?out "js ''p_email''" e,
        THEN conjunct2, THEN conjunct2, THEN conjunct2, THEN conjunct1]
      that k encodeParams_example unreserved_js_keys(1)
    by blast
  moreover have "split 0x26 ?out =
      [js ''projectid=123'', js ''orderid=order%26special%3Dtest'', js ''amount=100'']"
    by (simp add: js_def)
  ultimately show ?thesis
    using l encodeParams_example by simp
qed


text \<open>
  C7. For every transaction identifier and every identifier \<open>uuid\<close>, the order identifier
  has at most 40 characters and is the first 40 characters of: the first 8 alphanumeric
  characters of the transaction identifier (all of them when there are fewer), followed by
  the first 24 characters of \<open>uuid\<close> without its hyphens; for a \<open>uuid\<close> that \<open>uuidv7()\<close>
  returns these are exactly 24 hexadecimal digits. \<open>createPaymentRequest\<close> fails only with
  the error of \<open>encodeParams\<close> and otherwise returns this order identifier; for a \<open>uuid\<close>
  of \<open>uuidv7()\<close> and well-formed strings in the configuration and the options it returns.
\<close>

theorem C7_order_id:
  "length (generateOrderId uuid tx) \<le> 40 \<and>
   generateOrderId uuid tx =
     take 40 (take 8 (filter is_alphanumeric tx) @ take 24 (filter (\<lambda>c. c \<noteq> 0x2D) uuid)) \<and>
   (is_uuid uuid \<longrightarrow>
      length (take 24 (filter (\<lambda>c. c \<noteq> 0x2D) uuid)) = 24 \<and>
      list_all is_hex (take 24 (filter (\<lambda>c. c \<noteq> 0x2D) uuid))) \<and>
   createPaymentRequest P client uuid options =
     (case encodeParams P (request_params client (generateOrderId uuid (transactionId options))
             options) of
        Inl e \<Rightarrow> Inl e
      | Inr q \<Rightarrow> Inr \<lparr>redirectUrl = getPaymentUrl (toUrlSafeBase64 q)
            (generateSignature P (toUrlSafeBase64 q) (password (config client))),
          orderId = generateOrderId uuid (transactionId options)\<rparr>) \<and>
   (is_uuid uuid \<and> well_formed_request P client options \<longrightarrow>
      (\<exists>r. createPaymentRequest P client uuid options = Inr r \<and>
         orderId r = generateOrderId uuid (transactionId options)))"
proof -
  have "length (generateOrderId uuid tx) \<le> 40"
    by (simp add: generateOrderId_def Let_def)
  moreover have "generateOrderId uuid tx =
     take 40 (take 8 (filter is_alphanumeric tx) @ take 24 (filter (\<lambda>c. c \<noteq> 0x2D) uuid))"
    by (simp add: generateOrderId_def Let_def)
  ultimately show ?thesis
    using shortUuid [of uuid] createPaymentRequest_returns_orderId [of uuid P client options]
      createPaymentRequest_unfold [of P client uuid options]
    by blast
qed

theorem C7_order_id_witness:
  "is_uuid (js ''0190a6a8-7b1c-7def-8abc-0123456789ab'') \<and>
   well_formed_request
      \<lparr>md5_hex = (\<lambda>s. js ''0123456789abcdef0123456789abcdef''), toLowerCase = (\<lambda>s. s),
       number_digits = (\<lambda>q. [])\<rparr>
      \<lparr>config = \<lparr>projectId = js ''12345'', password = js ''secret_password'', testMode = True\<rparr>\<rparr>
      \<lparr>transactionId = js ''TX-001'', amount = Num (21 / 2), currency = js ''EUR'',
       urls = \<lparr>acceptUrl = js ''https://example.com/accept'',
         cancelUrl = js ''https://example.com/cancel'',
         callbackUrl = js ''https://example.com/callback''\<rparr>,
       customerEmail = None, customerFirstName = None, customerLastName = None,
       paymentDescription = None, language = None\<rparr> \<and>
   (\<exists>r. createPaymentRequest
      \<lparr>md5_hex = (\<lambda>s. js ''0123456789abcdef0123456789abcdef''), toLowerCase = (\<lambda>s. s),
       number_digits = (\<lambda>q. [])\<rparr>
      \<lparr>config = \<lparr>projectId = js ''12345'', password = js ''secret_password'', testMode = True\<rparr>\<rparr>
      (js ''0190a6a8-7b1c-7def-8abc-0123456789ab'')
      \<lparr>transactionId = js ''TX-001'', amount = Num (21 / 2), currency = js ''EUR'',
       urls = \<lparr>acceptUrl = js ''https://example.com/accept'',
         cancelUrl = js ''https://example.com/cancel'',
         callbackUrl = js ''https://example.com/callback''\<rparr>,
       customerEmail = None, customerFirstName = None, customerLastName = None,
       paymentDescription = None, language = None\<rparr> = Inr r \<and>
     orderId r = js ''TX0010190a6a87b1c7def8abc0123'')"
proof -
  let ?P = "\<lparr>md5_hex = (\<lambda>s. js ''0123456789abcdef0123456789abcdef''), toLowerCase = (\<lambda>s. s),
       number_digits = (\<lambda>q. [])\<rparr>"
  let ?client = "\<lparr>config = \<lparr>projectId = js ''12345'', password = js ''secret_password'',
       testMode = True\<rparr>\<rparr>"
  let ?options = "\<lparr>transactionId = js ''TX-001'', amount = Num (21 / 2), currency = js ''EUR'',
       urls = \<lparr>acceptUrl = js ''https://example.com/accept'',
         cancelUrl = js ''https://example.com/cancel'',
         callbackUrl = js ''https://example.com/callback''\<rparr>,
       customerEmail = None, customerFirstName = None, customerLastName = None,
       paymentDescription = None, language = None\<rparr>"
  have w: "well_formed_request ?P ?client ?options"
    by (simp add: well_formed_request_def well_formed_option_def well_formed_js)
      (simp add: well_formed_def)
  have "\<exists>r. createPaymentRequest ?P ?client (js ''0190a6a8-7b1c-7def-8abc-0123456789ab'')
      ?options = Inr r \<and>
      orderId r = generateOrderId (js ''0190a6a8-7b1c-7def-8abc-0123456789ab'')
        (transactionId ?options)"
    using C7_order_id [of "js ''0190a6a8-7b1c-7def-8abc-0123456789ab''" _ ?P ?client ?options]
      w is_uuid_example
    by blast
  then have "\<exists>r. createPaymentRequest ?P ?client (js ''0190a6a8-7b1c-7def-8abc-0123456789ab'')
      ?options = Inr r \<and> orderId r = js ''TX0010190a6a87b1c7def8abc0123''"
    by (simp add: generateOrderId_example)
  then show ?thesis
    using w is_uuid_example by blast
qed


text \<open>
  C8, as stated, fails: the amount that is transmitted is not always an integer. For the
  amount \<open>NaN\<close> it is \<open>NaN\<close>, and for the finite amount \<open>2 ^ 1020\<close> the product with 100
  overflows and it is \<open>Infinity\<close>; the parameter is then \<open>amount=NaN\<close> and
  \<open>amount=Infinity\<close>.
\<close>

theorem C8_counterexample:
  "toMinorUnits NaN = NaN \<and>
   toMinorUnits (Num (2 ^ 1020)) = Infinity \<and>
   encodeParams
     \<lparr>md5_hex = (\<lambda>s. js ''0123456789abcdef0123456789abcdef''), toLowerCase = (\<lambda>s. s),
      number_digits = (\<lambda>q. [])\<rparr>
     [(js ''amount'', Number (toMinorUnits NaN))] = Inr (js ''amount=NaN'') \<and>
   encodeParams
     \<lparr>md5_hex = (\<lambda>s. js ''0123456789abcdef0123456789abcdef''), toLowerCase = (\<lambda>s. s),
      number_digits = (\<lambda>q. [])\<rparr>
     [(js ''amount'', Number (toMinorUnits (Num (2 ^ 1020))))] = Inr (js ''amount=Infinity'')"
proof -
  have "toMinorUnits NaN = NaN"
    by (simp add: toMinorUnits_def)
  then show ?thesis
    unfolding toMinorUnits_overflow
    by (simp add: encodeParams_def kept_def encode_entry_def to_String_def number_toString_def
        eval_encode)
qed

text \<open>
  C8, amended. For every number \<open>x\<close>, \<open>toMinorUnits x\<close> is \<open>Math.round(x * 100)\<close>. The
  parameters of a request have the entry \<open>amount\<close> with the value \<open>toMinorUnits\<close> of the
  amount of the options. When the parameters are encoded to the query string \<open>q\<close>, one of
  the pairs of \<open>q\<close> is \<open>amount=v\<close>, where \<open>v\<close> is \<open>encodeURIComponent\<close> of the string of
  that number; when the number is an integer \<open>i\<close> with \<open>0 \<le> i \<le> 2 ^ 53\<close>, the pair is
  \<open>amount=\<close> followed by the decimal digits of \<open>i\<close>. When \<open>createPaymentRequest\<close> returns,
  its redirect URL is the payment URL of such a query string. For a finite amount \<open>a\<close> the
  product \<open>a * 100\<close> is the exact product rounded to binary64; when the product is the
  finite number \<open>p\<close>, the minor-unit amount is the integer \<open>\<lfloor>p + 1/2\<rfloor>\<close>. The amounts
  \<open>NaN\<close>, \<open>Infinity\<close> and \<open>-Infinity\<close> give themselves. The amount 10.5 gives 1050, which is
  written \<open>1050\<close>.
\<close>

theorem C8_minor_units:
  "toMinorUnits x = Math_round (js_mul x (Num 100)) \<and>
   (js ''amount'', Number (toMinorUnits (CreatePaymentOptions.amount options)))
      \<in> set (request_params client order_id options) \<and>
   (encodeParams P (request_params client order_id options) = Inr q \<longrightarrow>
      (\<exists>v. encodeURIComponent (number_toString (number_digits P)
              (toMinorUnits (CreatePaymentOptions.amount options))) = Some v \<and>
           js ''amount'' @ js ''='' @ v \<in> set (split 0x26 q))) \<and>
   (encodeParams P (request_params client order_id options) = Inr q \<and>
    toMinorUnits (CreatePaymentOptions.amount options) = Num (of_int i) \<and> 0 \<le> i \<and> i \<le> 2 ^ 53
      \<longrightarrow> js ''amount'' @ js ''='' @ decimal (nat i) \<in> set (split 0x26 q)) \<and>
   (createPaymentRequest P client uuid options = Inr r \<longrightarrow>
      (\<exists>q' v. redirectUrl r = getPaymentUrl (toUrlSafeBase64 q')
              (generateSignature P (toUrlSafeBase64 q') (password (config client))) \<and>
            encodeURIComponent (number_toString (number_digits P)
              (toMinorUnits (CreatePaymentOptions.amount options))) = Some v \<and>
            js ''amount'' @ js ''='' @ v \<in> set (split 0x26 q'))) \<and>
   js_mul (Num a) (Num 100) = to_double (a * 100) \<and>
   (js_mul (Num a) (Num 100) = Num p \<longrightarrow> toMinorUnits (Num a) = Num (of_int \<lfloor>p + 1 / 2\<rfloor>)) \<and>
   toMinorUnits NaN = NaN \<and> toMinorUnits Infinity = Infinity \<and>
   toMinorUnits NegInfinity = NegInfinity \<and>
   toMinorUnits (Num (21 / 2)) = Num 1050 \<and> decimal 1050 = js ''1050''"
proof -
  have c: "\<exists>q' v. redirectUrl r = getPaymentUrl (toUrlSafeBase64 q')
              (generateSignature P (toUrlSafeBase64 q') (password (config client))) \<and>
            encodeURIComponent (number_toString (number_digits P)
              (toMinorUnits (CreatePaymentOptions.amount options))) = Some v \<and>
            js ''amount'' @ js ''='' @ v \<in> set (split 0x26 q')"
    if h: "createPaymentRequest P client uuid options = Inr r"
  proof -
    obtain q' where q': "encodeParams P (request_params client
          (generateOrderId uuid (transactionId options)) options) = Inr q'"
        "redirectUrl r = getPaymentUrl (toUrlSafeBase64 q')
              (generateSignature P (toUrlSafeBase64 q') (password (config client)))"
    proof (cases "encodeParams P (request_params client
          (generateOrderId uuid (transactionId options)) options)")
      case (Inl e)
      then show ?thesis
        using h by (simp add: createPaymentRequest_unfold)
    next
      case (Inr q')
      then have "redirectUrl r = getPaymentUrl (toUrlSafeBase64 q')
              (generateSignature P (toUrlSafeBase64 q') (password (config client)))"
        using h by (auto simp: createPaymentRequest_unfold)
      with Inr show ?thesis
        by (rule that)
    qed
    show ?thesis
      using amount_on_wire [OF q'(1)] q'(2) by blast
  qed
  have "toMinorUnits NaN = NaN" "toMinorUnits Infinity = Infinity"
    "toMinorUnits NegInfinity = NegInfinity"
    "toMinorUnits x = Math_round (js_mul x (Num 100))"
    by (simp_all add: toMinorUnits_def)
  then show ?thesis
    using c request_params_amount [of options client order_id]
      amount_on_wire [of P client order_id options q]
      amount_digits_on_wire [of P client order_id options q i]
      toMinorUnits_finite [of a p] toMinorUnits_example decimal_1050
    by (simp only: js_mul.simps simp_thms) blast
qed

theorem C8_minor_units_witness:
  "encodeParams
     \<lparr>md5_hex = (\<lambda>s. js ''0123456789abcdef0123456789abcdef''), toLowerCase = (\<lambda>s. s),
      number_digits = (\<lambda>q. [])\<rparr>
     (request_params
        \<lparr>config = \<lparr>projectId = js ''12345'', password = js ''secret_password'',
           testMode = True\<rparr>\<rparr>
        (js ''TX0010190a6a87b1c7def8abc0123'')
        \<lparr>transactionId = js ''TX-001'', amount = Num (21 / 2), currency = js ''EUR'',
         urls = \<lparr>acceptUrl = js ''https://example.com/accept'',
           cancelUrl = js ''https://example.com/cancel'',
           callbackUrl = js ''https://example.com/callback''\<rparr>,
         customerEmail = None, customerFirstName = None, customerLastName = None,
         paymentDescription = None, language = None\<rparr>)
   = Inr (js ''projectid=12345&orderid=TX0010190a6a87b1c7def8abc0123&accepturl=https%3A%2F%2Fexample.com%2Faccept&cancelurl=https%3A%2F%2Fexample.com%2Fcancel&callbackurl=https%3A%2F%2Fexample.com%2Fcallback&version=1.6&amount=1050&currency=EUR&test=1'') \<and>
   js_mul (Num (21 / 2)) (Num 100) = Num 1050 \<and>
   toMinorUnits (Num (21 / 2)) = Num (of_int 1050) \<and>
   js ''amount=1050'' \<in> set (split 0x26 (js ''projectid=12345&orderid=TX0010190a6a87b1c7def8abc0123&accepturl=https%3A%2F%2Fexample.com%2Faccept&cancelurl=https%3A%2F%2Fexample.com%2Fcancel&callbackurl=https%3A%2F%2Fexample.com%2Fcallback&version=1.6&amount=1050&currency=EUR&test=1''))"
proof -
  let ?P = "\<lparr>md5_hex = (\<lambda>s. js ''0123456789abcdef0123456789abcdef''), toLowerCase = (\<lambda>s. s),
       number_digits = (\<lambda>q. [])\<rparr>"
  let ?client = "\<lparr>config = \<lparr>projectId = js ''12345'', password = js ''secret_password'',
       testMode = True\<rparr>\<rparr>"
  let ?options = "\<lparr>transactionId = js ''TX-001'', amount = Num (21 / 2), currency = js ''EUR'',
       urls = \<lparr>acceptUrl = js ''https://example.com/accept'',
         cancelUrl = js ''https://example.com/cancel'',
         callbackUrl = js ''https://example.com/callback''\<rparr>,
       customerEmail = None, customerFirstName = None, customerLastName = None,
       paymentDescription = None, language = None\<rparr>"
  let ?q = "js ''projectid=12345&orderid=TX0010190a6a87b1c7def8abc0123&accepturl=https%3A%2F%2Fexample.com%2Faccept&cancelurl=https%3A%2F%2Fexample.com%2Fcancel&callbackurl=https%3A%2F%2Fexample.com%2Fcallback&version=1.6&amount=1050&currency=EUR&test=1''"
  note t = C8_minor_units [where P = ?P and client = ?client and options = ?options
      and order_id = "js ''TX0010190a6a87b1c7def8abc0123''" and q = ?q and i = 1050
      and a = "21 / 2" and p = 1050 and x = NaN and uuid = "[]"
      and r = "\<lparr>redirectUrl = [], orderId = []\<rparr>"]
  have e: "encodeParams ?P (request_params ?client (js ''TX0010190a6a87b1c7def8abc0123'')
      ?options) = Inr ?q"
    by (rule encodeParams_request_example)
  have m: "js_mul (Num (21 / 2)) (Num 100) = Num 1050"
    by (simp add: to_double_numeral)
  from t have u: "toMinorUnits (Num (21 / 2)) = Num 1050"
    by (elim conjE)
  from t have d: "decimal 1050 = js ''1050''"
    by (elim conjE)
  from t have imp: "encodeParams ?P (request_params ?client
        (js ''TX0010190a6a87b1c7def8abc0123'') ?options) = Inr ?q \<and>
      toMinorUnits (CreatePaymentOptions.amount ?options) = Num (of_int 1050) \<and>
      0 \<le> (1050::int) \<and> (1050::int) \<le> 2 ^ 53 \<longrightarrow>
      js ''amount'' @ js ''='' @ decimal (nat 1050) \<in> set (split 0x26 ?q)"
    by (elim conjE)
  have b: "toMinorUnits (CreatePaymentOptions.amount ?options) = Num (of_int 1050)"
    using u by simp
  have "0 \<le> (1050::int)" "(1050::int) \<le> 2 ^ 53"
    by simp_all
  with e b have "encodeParams ?P (request_params ?client
        (js ''TX0010190a6a87b1c7def8abc0123'') ?options) = Inr ?q \<and>
      toMinorUnits (CreatePaymentOptions.amount ?options) = Num (of_int 1050) \<and>
      0 \<le> (1050::int) \<and> (1050::int) \<le> 2 ^ 53"
    by (intro conjI)
  with imp have "js ''amount'' @ js ''='' @ decimal (nat 1050) \<in> set (split 0x26 ?q)"
    by (rule mp)
  moreover have "js ''amount'' @ js ''='' @ decimal (nat 1050) = js ''amount=1050''"
    using d by (simp add: js_def)
  ultimately have w: "js ''amount=1050'' \<in> set (split 0x26 ?q)"
    by simp
  have u': "toMinorUnits (Num (21 / 2)) = Num (of_int 1050)"
    using u by simp
  from e m u' w show ?thesis
    by (intro conjI)
qed

text \<open>
  C9. The constructor fails with \<open>PayseraConfigError\<close> exactly when the project id or the
  password of the configuration is empty, and otherwise gives the client that holds the
  configuration. For every client, constructed or not, neither \<open>createPaymentRequest\<close> nor
  \<open>processCallback\<close> ever fails with \<open>PayseraConfigError\<close>: they do not look at the
  configuration again.
\<close>

theorem C9_construction_gate:
  "((\<exists>m. new_PayseraClient c = Inl (PayseraConfigError m)) \<longleftrightarrow>
      projectId c = [] \<or> password c = []) \<and>
   (new_PayseraClient c = Inr \<lparr>config = c\<rparr> \<longleftrightarrow> projectId c \<noteq> [] \<and> password c \<noteq> []) \<and>
   createPaymentRequest P client uuid options \<noteq> Inl (PayseraConfigError m) \<and>
   processCallback P client rawCallback \<noteq> Inl (PayseraConfigError m)"
proof -
  have "createPaymentRequest P client uuid options \<noteq> Inl (PayseraConfigError m)"
    using createPaymentRequest_error by fastforce
  moreover have "processCallback P client rawCallback \<noteq> Inl (PayseraConfigError m)"
    by (auto simp: processCallback_def verifyAndDecodeCallback_def Let_def
        split: sum.splits dest: decodeCallbackData_error parseCallbackData_error)
  ultimately show ?thesis
    by (simp add: new_PayseraClient_def)
qed

theorem C9_construction_gate_witness:
  "(\<exists>m. new_PayseraClient \<lparr>projectId = [], password = js ''secret'', testMode = True\<rparr>
      = Inl (PayseraConfigError m)) \<and>
   new_PayseraClient \<lparr>projectId = js ''12345'', password = js ''secret'', testMode = True\<rparr>
      = Inr \<lparr>config = \<lparr>projectId = js ''12345'', password = js ''secret'', testMode = True\<rparr>\<rparr>"
  using
    C9_construction_gate [of "\<lparr>projectId = [], password = js ''secret'', testMode = True\<rparr>"]
    C9_construction_gate [of
      "\<lparr>projectId = js ''12345'', password = js ''secret'', testMode = True\<rparr>"]
  by simp

text \<open>
  C10. For every transaction identifier and every \<open>uuid\<close> that \<open>uuidv7()\<close> returns, the
  order identifier has alphanumeric characters only and at most 32 of them (at most 8 of
  the transaction identifier and exactly 24 of the \<open>uuid\<close>), so the cut at 40 removes
  nothing; \<open>encodeURIComponent\<close> leaves it as it is, the entry is encoded as \<open>orderid=\<close>
  followed by it, and this is a part of every query string that \<open>encodeParams\<close> makes of
  the parameters of a request.
\<close>

theorem C10_order_id_alphanumeric:
  assumes "is_uuid uuid"
  shows "list_all is_alphanumeric (generateOrderId uuid tx) \<and>
    length (generateOrderId uuid tx) \<le> 32 \<and>
    length (take 8 (filter is_alphanumeric tx)) \<le> 8 \<and>
    length (take 24 (filter (\<lambda>c. c \<noteq> 0x2D) uuid)) = 24 \<and>
    generateOrderId uuid tx =
      take 8 (filter is_alphanumeric tx) @ take 24 (filter (\<lambda>c. c \<noteq> 0x2D) uuid) \<and>
    encodeURIComponent (generateOrderId uuid tx) = Some (generateOrderId uuid tx) \<and>
    encode_entry P (js ''orderid'', Str (generateOrderId uuid tx)) =
      Some (js ''orderid'' @ js ''='' @ generateOrderId uuid tx) \<and>
    (encodeParams P (request_params client (generateOrderId uuid tx) options) = Inr q \<longrightarrow>
       js ''orderid'' @ js ''='' @ generateOrderId uuid tx \<in> set (split 0x26 q))"
proof -
  have a: "list_all is_alphanumeric (generateOrderId uuid tx)"
    by (rule generateOrderId_alphanumeric [OF assms])
  have e: "encodeURIComponent (generateOrderId uuid tx) = Some (generateOrderId uuid tx)"
    by (rule encodeURIComponent_alphanumeric [OF a])
  have n: "generateOrderId uuid tx =
      take 8 (filter is_alphanumeric tx) @ take 24 (filter (\<lambda>c. c \<noteq> 0x2D) uuid)"
    by (rule generateOrderId_no_truncation [OF assms])
  have l: "length (generateOrderId uuid tx) \<le> 32"
    unfolding n using shortUuid(1) [OF assms] by simp
  have k: "encode_entry P (js ''orderid'', Str (generateOrderId uuid tx)) =
      Some (js ''orderid'' @ js ''='' @ generateOrderId uuid tx)"
    using e
    by (simp add: encode_entry_def to_String_def encodeURIComponent_alphanumeric [OF alnum_orderid])
  have "length (take 8 (filter is_alphanumeric tx)) \<le> 8"
    by simp
  then show ?thesis
    using a e n l k shortUuid(1) [OF assms] orderid_on_wire [OF assms, of P client tx options q]
    by blast
qed

theorem C10_order_id_alphanumeric_witness:
  "is_uuid (js ''0190a6a8-7b1c-7def-8abc-0123456789ab'') \<and>
   length (generateOrderId (js ''0190a6a8-7b1c-7def-8abc-0123456789ab'') (js ''TX-001'')) \<le> 32 \<and>
   encodeURIComponent (js ''TX0010190a6a87b1c7def8abc0123'')
     = Some (js ''TX0010190a6a87b1c7def8abc0123'')"
proof -
  have "length (generateOrderId (js ''0190a6a8-7b1c-7def-8abc-0123456789ab'') (js ''TX-001'')) \<le> 32 \<and>
      encodeURIComponent (generateOrderId (js ''0190a6a8-7b1c-7def-8abc-0123456789ab'') (js ''TX-001''))
        = Some (generateOrderId (js ''0190a6a8-7b1c-7def-8abc-0123456789ab'') (js ''TX-001''))"
    using C10_order_id_alphanumeric [OF is_uuid_example, of "js ''TX-001''"] by blast
  then show ?thesis
    using is_uuid_example by (simp only: generateOrderId_example simp_thms)
qed


end
